theory Spec2Isabelle
  imports Main "HOL-Library.Sublist"
begin

section \<open>Setuptools convenience functionality of Twisted (\<^verbatim>\<open>src/twisted/python/_setup.py\<close>)\<close>

text \<open>
  A shallow embedding of the module. Python names that start with an underscore lose it
  (\<^verbatim>\<open>_EXTENSIONS\<close> is \<open>EXTENSIONS\<close>, \<^verbatim>\<open>_compile_helper\<close> is \<open>compile_helper\<close>), since an
  Isabelle name starts with a letter.
\<close>

subsection \<open>Data\<close>

text \<open>
  Exceptions are values. \<open>CompileError\<close> is distutils' and a subclass of its
  \<^verbatim>\<open>CCompilerError\<close>; \<open>CCompilerError\<close> carries the name of another subclass
  (\<^verbatim>\<open>LinkError\<close>, say), \<open>DistutilsError\<close> and \<open>EnvironmentError\<close> likewise
  (\<^verbatim>\<open>FileNotFoundError\<close>, \<^verbatim>\<open>PermissionError\<close>). \<open>OtherError\<close> stands for every exception
  that neither the module nor the build step names.
\<close>

datatype exn =
    CompileError
  | CCompilerError string
  | DistutilsError string
  | EnvironmentError string
  | KeyError
  | OtherError string

definition bind_exn :: "exn + 'a \<Rightarrow> ('a \<Rightarrow> exn + 'b) \<Rightarrow> exn + 'b" where
  "bind_exn m f = (case m of Inl e \<Rightarrow> Inl e | Inr x \<Rightarrow> f x)"

type_synonym macro = "string \<times> int"

text \<open>
  The working directory: a map from file names to contents. What the operating system
  refuses in it is the record \<open>os\<close> below.
\<close>

type_synonym files = "string \<Rightarrow> string option"

text \<open>
  The operating system, as far as the module calls it: for a name, the exception that
  \<^verbatim>\<open>open(name, "w")\<close> raises, if any; for a name and a text, the exception that writing
  the text and closing the file raises, if any, with what is in the file then; and for a
  name that is present, the subclass of \<^verbatim>\<open>EnvironmentError\<close> that \<^verbatim>\<open>os.unlink(name)\<close>
  raises, if any (the name is a directory, or may not be removed). The module calls each
  of them at most once for a name, so a function of the name stands for every behaviour.
\<close>

record os =
  open_error :: "string \<Rightarrow> exn option"
  write_error :: "string \<Rightarrow> string \<Rightarrow> (exn \<times> string) option"
  unlink_error :: "string \<Rightarrow> string option"

text \<open>
  \<^verbatim>\<open>self.compiler.compile(sources, output_dir, macros)\<close> of distutils: given the source
  names, the macros and the directory it leaves the directory changed (object files)
  and either returns (\<open>None\<close>) or raises.
\<close>

type_synonym compiler = "string list \<Rightarrow> macro list \<Rightarrow> files \<Rightarrow> exn option \<times> files"

text \<open>
  Objects have an identity. Extension objects live in a store and are named by their
  address: the lists \<^verbatim>\<open>conditionalExtensions\<close> and \<^verbatim>\<open>extensions\<close> hold references, so
  the two lists share the objects. The \<^verbatim>\<open>define_macros\<close> attribute of an extension is a
  reference too, to a list object in a store of list objects: two extensions built over
  one list object share it, and what is appended through one is seen through the other.
\<close>

type_synonym addr = nat

type_synonym laddr = nat

type_synonym lists = "laddr \<Rightarrow> macro list"

text \<open>
  An instance of \<^verbatim>\<open>build_ext_twisted\<close>: the attributes the module reads and writes,
  together with the two interpreter constants its methods read, \<^verbatim>\<open>os.name\<close> and
  \<^verbatim>\<open>sys.platform\<close>. A condition receives this record, so a condition that reads
  \<^verbatim>\<open>sys.platform\<close> reads the field. \<^verbatim>\<open>self.define_macros\<close> is a list that
  \<^verbatim>\<open>prepare_extensions\<close> makes anew, which nothing else refers to: it is a value.
\<close>

record builder =
  os_name :: string
  sys_platform :: string
  compiler :: compiler
  define_macros :: "macro list"
  conditionalExtensions :: "addr list"
  extensions :: "addr list"

text \<open>
  A \<^verbatim>\<open>ConditionalExtension\<close>: the attributes of setuptools' \<^verbatim>\<open>Extension\<close> that this
  module and the build step read or write, and \<^verbatim>\<open>condition\<close>, "a callable of one
  argument which returns True or False", the argument being the builder. A condition is
  a predicate of the builder record: it has no effect and does not raise.
\<close>

record extension =
  name :: string
  sources :: "string list"
  libraries :: "string list"
  define_macros :: laddr
  optional :: bool
  condition :: "builder \<Rightarrow> bool"

type_synonym heap = "addr \<Rightarrow> extension"

subsection \<open>\<^verbatim>\<open>build_ext_twisted.prepare_extensions\<close>\<close>

text \<open>
  The loop \<^verbatim>\<open>for ext in self.extensions: ext.define_macros.extend(self.define_macros)\<close>:
  each reference of the list in turn, the list object that the extension's
  \<^verbatim>\<open>define_macros\<close> refers to extended in place. No attribute of an extension is
  assigned, so the store of extensions is only read.
\<close>

fun extend_all :: "heap \<Rightarrow> addr list \<Rightarrow> macro list \<Rightarrow> lists \<Rightarrow> lists" where
  "extend_all h [] ms ls = ls"
| "extend_all h (a # as) ms ls =
     extend_all h as ms
       (ls(extension.define_macros (h a) := ls (extension.define_macros (h a)) @ ms))"

text \<open>
  The method, statement by statement: the assignment to \<^verbatim>\<open>self.define_macros\<close>, the two
  \<^verbatim>\<open>append\<close>s on Solaris, the list comprehension (every condition is called with
  \<^verbatim>\<open>self\<close> as it is then: the macros assigned, \<^verbatim>\<open>self.extensions\<close> not yet), and the
  loop. It returns the builder and the store of list objects.
\<close>

definition prepare_extensions :: "builder \<Rightarrow> heap \<Rightarrow> lists \<Rightarrow> builder \<times> lists" where
  "prepare_extensions self h ls =
     (let self1 =
            (if os_name self = ''nt''
             then self\<lparr>builder.define_macros := [(''WIN32'', 1)]\<rparr>
             else self\<lparr>builder.define_macros := []\<rparr>);
          self2 =
            (if prefix ''sunos'' (sys_platform self1)
             then
               (let s = self1\<lparr>builder.define_macros :=
                          builder.define_macros self1 @ [(''_XOPEN_SOURCE'', 1)]\<rparr>
                in s\<lparr>builder.define_macros :=
                          builder.define_macros s @ [(''_XOPEN_SOURCE_EXTENDED'', 1)]\<rparr>)
             else self1);
          self3 =
            self2\<lparr>extensions :=
              filter (\<lambda>x. condition (h x) self2) (conditionalExtensions self2)\<rparr>
      in (self3, extend_all h (extensions self3) (builder.define_macros self3) ls))"

text \<open>
  The macros \<^verbatim>\<open>self.define_macros\<close> holds when the conditions are called and when the
  loop runs, as one list.
\<close>

definition platform_macros :: "builder \<Rightarrow> macro list" where
  "platform_macros self =
     (if os_name self = ''nt'' then [(''WIN32'', 1)] else []) @
     (if prefix ''sunos'' (sys_platform self)
      then [(''_XOPEN_SOURCE'', 1), (''_XOPEN_SOURCE_EXTENDED'', 1)] else [])"

subsection \<open>\<^verbatim>\<open>build_ext_twisted.build_extensions\<close>\<close>

text \<open>
  \<^verbatim>\<open>self.prepare_extensions()\<close>, then the build step of the base class,
  \<^verbatim>\<open>build_ext.build_ext.build_extensions(self)\<close>. The base class is distutils', not this
  module's, and is the parameter \<open>base\<close>: from the builder, the two stores and the
  directory it returns or raises and leaves the directory changed. The method has no
  \<^verbatim>\<open>try\<close>.
\<close>

type_synonym base_build = "builder \<Rightarrow> heap \<Rightarrow> lists \<Rightarrow> files \<Rightarrow> exn option \<times> files"

definition build_extensions ::
  "base_build \<Rightarrow> builder \<Rightarrow> heap \<Rightarrow> lists \<Rightarrow> files \<Rightarrow> exn option \<times> builder \<times> lists \<times> files" where
  "build_extensions base self h ls fs =
     (case prepare_extensions self h ls of
        (self', ls') \<Rightarrow> (case base self' h ls' fs of (r, fs') \<Rightarrow> (r, self', ls', fs')))"

text \<open>
  The build step of distutils as its \<^verbatim>\<open>command/build_ext.py\<close> has it
  (\<^verbatim>\<open>_build_extensions_serial\<close> under \<^verbatim>\<open>_filter_build_errors\<close>): every extension of
  \<^verbatim>\<open>self.extensions\<close> in turn is built, the call of the compiler on its sources with its
  macros standing for \<^verbatim>\<open>build_extension\<close>, and
  \<^verbatim>\<open>except (CCompilerError, DistutilsError, CompileError)\<close> raises the error again
  unless the extension is \<^verbatim>\<open>optional\<close>, in which case it warns and goes on. Any other
  exception leaves the loop.
\<close>

fun is_build_error :: "exn \<Rightarrow> bool" where
  "is_build_error CompileError = True"
| "is_build_error (CCompilerError cls) = True"
| "is_build_error (DistutilsError cls) = True"
| "is_build_error e = False"

fun distutils_build_loop ::
  "builder \<Rightarrow> heap \<Rightarrow> lists \<Rightarrow> addr list \<Rightarrow> files \<Rightarrow> exn option \<times> files" where
  "distutils_build_loop self h ls [] fs = (None, fs)"
| "distutils_build_loop self h ls (a # as) fs =
     (case compiler self (sources (h a)) (ls (extension.define_macros (h a))) fs of
        (None, fs') \<Rightarrow> distutils_build_loop self h ls as fs'
      | (Some e, fs') \<Rightarrow>
          if is_build_error e \<and> optional (h a) then distutils_build_loop self h ls as fs'
          else (Some e, fs'))"

definition distutils_build_extensions :: base_build where
  "distutils_build_extensions self h ls fs =
     distutils_build_loop self h ls (extensions self) fs"

subsection \<open>\<^verbatim>\<open>_remove_conftest\<close>, \<^verbatim>\<open>_compile_helper\<close>, \<^verbatim>\<open>_check_header\<close>\<close>

text \<open>
  \<^verbatim>\<open>os.unlink\<close>: an absent name raises \<^verbatim>\<open>FileNotFoundError\<close>; a present one is removed
  unless the operating system refuses, and then it stays.
\<close>

definition unlink :: "os \<Rightarrow> string \<Rightarrow> files \<Rightarrow> exn option \<times> files" where
  "unlink sys filename fs =
     (case fs filename of
        None \<Rightarrow> (Some (EnvironmentError ''FileNotFoundError''), fs)
      | Some content \<Rightarrow>
          (case unlink_error sys filename of
             Some cls \<Rightarrow> (Some (EnvironmentError cls), fs)
           | None \<Rightarrow> (None, fs(filename := None))))"

text \<open>
  \<^verbatim>\<open>open(name, "w")\<close> creates the file or empties it, or raises and changes nothing.
  Writing and closing leaves the text in the file, or raises and leaves in the file
  what had reached it.
\<close>

definition open_w :: "os \<Rightarrow> string \<Rightarrow> files \<Rightarrow> exn option \<times> files" where
  "open_w sys filename fs =
     (case open_error sys filename of
        Some e \<Rightarrow> (Some e, fs)
      | None \<Rightarrow> (None, fs(filename \<mapsto> '''')))"

definition write_close :: "os \<Rightarrow> string \<Rightarrow> string \<Rightarrow> files \<Rightarrow> exn option \<times> files" where
  "write_close sys filename content fs =
     (case write_error sys filename content of
        Some (e, left) \<Rightarrow> (Some e, fs(filename \<mapsto> left))
      | None \<Rightarrow> (None, fs(filename \<mapsto> content)))"

text \<open>
  The loop of \<^verbatim>\<open>_remove_conftest\<close>: \<^verbatim>\<open>try: os.unlink(filename)\<close>,
  \<^verbatim>\<open>except EnvironmentError: pass\<close>. Any other exception would leave the loop.
\<close>

fun remove_conftest_loop :: "os \<Rightarrow> string list \<Rightarrow> files \<Rightarrow> exn option \<times> files" where
  "remove_conftest_loop sys [] fs = (None, fs)"
| "remove_conftest_loop sys (filename # filenames) fs =
     (case unlink sys filename fs of
        (None, fs') \<Rightarrow> remove_conftest_loop sys filenames fs'
      | (Some (EnvironmentError cls), fs') \<Rightarrow> remove_conftest_loop sys filenames fs'
      | (Some e, fs') \<Rightarrow> (Some e, fs'))"

definition remove_conftest :: "os \<Rightarrow> files \<Rightarrow> exn option \<times> files" where
  "remove_conftest sys fs =
     remove_conftest_loop sys [''conftest.c'', ''conftest.o'', ''conftest.obj''] fs"

text \<open>
  \<^verbatim>\<open>_compile_helper\<close>. \<^verbatim>\<open>open("conftest.c", "w")\<close> stands before the \<^verbatim>\<open>try\<close>: its
  exception leaves the method at once. Inside the \<^verbatim>\<open>try\<close>, the \<^verbatim>\<open>with\<close> block writes
  the content and closes the file, then the compiler runs, with no macros: its
  \<^verbatim>\<open>CompileError\<close> is caught (\<^verbatim>\<open>return False\<close>), any other exception, and one of the
  \<^verbatim>\<open>with\<close> block, leaves the block. The \<^verbatim>\<open>finally\<close> clause runs \<^verbatim>\<open>_remove_conftest\<close>
  on every path out of the \<^verbatim>\<open>try\<close>; an exception of its own would replace the outcome
  of the block.
\<close>

definition compile_helper ::
  "os \<Rightarrow> builder \<Rightarrow> string \<Rightarrow> files \<Rightarrow> (exn + bool) \<times> files" where
  "compile_helper sys self content fs =
     (case open_w sys ''conftest.c'' fs of
        (Some e, fs1) \<Rightarrow> (Inl e, fs1)
      | (None, fs1) \<Rightarrow>
          (case
             (case write_close sys ''conftest.c'' content fs1 of
                (Some e, fs2) \<Rightarrow> (Inl e, fs2)
              | (None, fs2) \<Rightarrow>
                  (case compiler self [''conftest.c''] [] fs2 of
                     (None, fs3) \<Rightarrow> (Inr True, fs3)
                   | (Some CompileError, fs3) \<Rightarrow> (Inr False, fs3)
                   | (Some e, fs3) \<Rightarrow> (Inl e, fs3)))
           of (outcome, fs3) \<Rightarrow>
             (case remove_conftest sys fs3 of
                (None, fs4) \<Rightarrow> (outcome, fs4)
              | (Some e', fs4) \<Rightarrow> (Inl e', fs4))))"

text \<open>
  \<^verbatim>\<open>_check_header\<close>: the announcement prints and changes nothing; the program is the
  one \<^verbatim>\<open>#include\<close> line.
\<close>

definition check_header ::
  "os \<Rightarrow> builder \<Rightarrow> string \<Rightarrow> files \<Rightarrow> (exn + bool) \<times> files" where
  "check_header sys self header_name fs =
     compile_helper sys self (''#include <'' @ header_name @ ''>'' @ [CHR 0x0A]) fs"

subsection \<open>\<^verbatim>\<open>ConditionalExtension\<close> and \<^verbatim>\<open>_EXTENSIONS\<close>\<close>

text \<open>
  The keyword arguments of a call that this module passes or pops. The name and the
  sources, which \<^verbatim>\<open>Extension.__init__\<close> requires, are arguments of their own. The
  \<^verbatim>\<open>define_macros\<close> keyword is a reference to the caller's list object.
\<close>

record kwargs =
  kw_libraries :: "string list option"
  kw_define_macros :: "laddr option"
  kw_optional :: "bool option"
  kw_condition :: "(builder \<Rightarrow> bool) option"

definition no_kwargs :: kwargs where
  "no_kwargs =
     \<lparr>kw_libraries = None, kw_define_macros = None, kw_optional = None, kw_condition = None\<rparr>"

text \<open>
  \<^verbatim>\<open>Extension.__init__\<close> (setuptools' \<^verbatim>\<open>Extension\<close>, whose initialiser is that of
  distutils) on an object that already has its \<^verbatim>\<open>condition\<close>: it stores the name and
  the sources, and \<^verbatim>\<open>libraries or []\<close>, \<^verbatim>\<open>define_macros or []\<close> and \<^verbatim>\<open>optional\<close>
  (\<^verbatim>\<open>None\<close>, which is false, when it is not given). \<^verbatim>\<open>define_macros or []\<close> is the
  caller's list object when one is given and is not empty, and a new empty list object
  otherwise; \<open>fresh\<close> is the address a new list object gets. The result is the object
  and the store of list objects.
\<close>

definition Extension_init ::
  "(builder \<Rightarrow> bool) \<Rightarrow> string \<Rightarrow> string list \<Rightarrow> kwargs \<Rightarrow> laddr \<Rightarrow> lists \<Rightarrow>
     extension \<times> lists" where
  "Extension_init self_condition nm srcs kw fresh ls =
     (let given =
            (case kw_define_macros kw of
               None \<Rightarrow> None
             | Some l \<Rightarrow> if ls l = [] then None else Some l)
      in (\<lparr>name = nm, sources = srcs,
           libraries = (case kw_libraries kw of None \<Rightarrow> [] | Some l \<Rightarrow> l),
           define_macros = (case given of None \<Rightarrow> fresh | Some l \<Rightarrow> l),
           optional = (case kw_optional kw of None \<Rightarrow> False | Some b \<Rightarrow> b),
           condition = self_condition\<rparr>,
          (case given of None \<Rightarrow> ls(fresh := []) | Some l \<Rightarrow> ls)))"

text \<open>
  \<^verbatim>\<open>ConditionalExtension.__init__\<close>:
  \<^verbatim>\<open>self.condition = kwargs.pop("condition", lambda builder: True)\<close>, then
  \<^verbatim>\<open>Extension.__init__\<close> with what is left of the keywords.
\<close>

definition ConditionalExtension ::
  "string \<Rightarrow> string list \<Rightarrow> kwargs \<Rightarrow> laddr \<Rightarrow> lists \<Rightarrow> extension \<times> lists" where
  "ConditionalExtension nm srcs kw fresh ls =
     (let self_condition =
            (case kw_condition kw of None \<Rightarrow> (\<lambda>builder. True) | Some c \<Rightarrow> c);
          kw' = kw\<lparr>kw_condition := None\<rparr>
      in Extension_init self_condition nm srcs kw' fresh ls)"

text \<open>
  \<^verbatim>\<open>_checkCPython(platform=platform)\<close>: the argument is a module whose
  \<^verbatim>\<open>python_implementation()\<close> returns a string. \<^verbatim>\<open>_isCPython\<close> is computed once, when
  the module is loaded, from the real \<^verbatim>\<open>platform\<close> module.
\<close>

record platform_module =
  python_implementation :: string

definition checkCPython :: "platform_module \<Rightarrow> bool" where
  "checkCPython platform = (python_implementation platform = ''CPython'')"

definition isCPython :: "platform_module \<Rightarrow> bool" where
  "isCPython platform = checkCPython platform"

text \<open>
  \<^verbatim>\<open>_EXTENSIONS\<close>, for the \<^verbatim>\<open>platform\<close> module the interpreter has. The two lambdas
  ignore their argument; the second reads \<^verbatim>\<open>sys.platform\<close> when it is called, which is
  the field of the builder record here. Neither call passes \<^verbatim>\<open>define_macros\<close>, so
  each object gets a new list object: they are the list objects 0 and 1 of the store the
  module leaves, \<open>EXTENSIONS_init\<close> being the objects with that store.
\<close>

definition EXTENSIONS_init :: "platform_module \<Rightarrow> extension list \<times> lists" where
  "EXTENSIONS_init platform =
     (case ConditionalExtension ''twisted.test.raiser''
             [''src/twisted/test/raiser.c'']
             (no_kwargs\<lparr>kw_condition := Some (\<lambda>_. isCPython platform)\<rparr>)
             0 (\<lambda>l. [])
      of (raiser, ls1) \<Rightarrow>
        (case ConditionalExtension ''twisted.internet.iocpreactor.iocpsupport''
                [''src/twisted/internet/iocpreactor/iocpsupport/iocpsupport.c'',
                 ''src/twisted/internet/iocpreactor/iocpsupport/winsock_pointers.c'']
                (no_kwargs\<lparr>kw_libraries := Some [''ws2_32''],
                   kw_condition :=
                     Some (\<lambda>b. isCPython platform \<and> sys_platform b = ''win32'')\<rparr>)
                1 ls1
         of (iocpsupport, ls2) \<Rightarrow> ([raiser, iocpsupport], ls2)))"

definition EXTENSIONS :: "platform_module \<Rightarrow> extension list" where
  "EXTENSIONS platform = fst (EXTENSIONS_init platform)"

subsection \<open>Dictionaries\<close>

text \<open>
  A dictionary is a map. \<open>py_dict\<close> builds one from the items of a \<^verbatim>\<open>dict(...)\<close> call or
  a display, a later item replacing an earlier one with the same key; \<open>getitem\<close> is
  \<^verbatim>\<open>d[k]\<close>, which raises \<^verbatim>\<open>KeyError\<close> for an absent key.
\<close>

definition py_dict :: "('k \<times> 'v) list \<Rightarrow> 'k \<Rightarrow> 'v option" where
  "py_dict items = fold (\<lambda>(k, v) d. d(k \<mapsto> v)) items Map.empty"

definition getitem :: "('k \<Rightarrow> 'v option) \<Rightarrow> 'k \<Rightarrow> exn + 'v" where
  "getitem d k = (case d k of None \<Rightarrow> Inl KeyError | Some v \<Rightarrow> Inr v)"

subsection \<open>\<^verbatim>\<open>_EXTRA_OPTIONS\<close>, \<^verbatim>\<open>_PLATFORM_INDEPENDENT\<close>, \<^verbatim>\<open>_EXTRAS_REQUIRE\<close>\<close>

definition dev :: "string list" where
  "dev =
     [''pyflakes >= 1.0.0'',
      ''twisted-dev-tools >= 0.0.2'',
      ''python-subunit'',
      ''towncrier >= 17.4.0'',
      ''twistedchecker >= 0.7.2'',
      ''alabaster~=0.7.12'',
      ''commonmark~=0.9.1'',
      ''docutils~=0.16.0'',
      ''mock~=4.0'',
      ''pillow~=7.2'',
      ''readthedocs-sphinx-ext~=2.1'',
      ''recommonmark~=0.6.0'',
      ''sphinx~=3.2'',
      ''sphinx-rtd-theme~=0.5.0'']"

definition EXTRA_OPTIONS :: "string \<Rightarrow> string list option" where
  "EXTRA_OPTIONS =
     py_dict
       [(''dev'', dev),
        (''tls'', [''pyopenssl >= 16.0.0'', ''service_identity >= 18.1.0'', ''idna >= 2.4'']),
        (''conch'',
           [''pyasn1'', ''cryptography >= 2.6'', ''appdirs >= 1.4.0'', ''bcrypt >= 3.0.0'']),
        (''serial'',
           [''pyserial >= 3.0'',
            ''pywin32 != 226; platform_system == '' @ [CHR 0x22] @ ''Windows'' @ [CHR 0x22]]),
        (''macos'', [''pyobjc-core'', ''pyobjc-framework-CFNetwork'', ''pyobjc-framework-Cocoa'']),
        (''windows'', [''pywin32 != 226'']),
        (''http2'', [''h2 >= 3.0, < 4.0'', ''priority >= 1.1.0, < 2.0'']),
        (''contextvars'',
           [''contextvars >= 2.4, < 3; python_version < '' @ [CHR 0x22] @ ''3.7'' @ [CHR 0x22]])]"

text \<open>
  The module's top level, run once when it is loaded: every \<^verbatim>\<open>_EXTRA_OPTIONS[...]\<close> is a
  lookup that can raise, so the two values are results.
\<close>

definition PLATFORM_INDEPENDENT :: "exn + string list" where
  "PLATFORM_INDEPENDENT =
     bind_exn (getitem EXTRA_OPTIONS ''tls'') (\<lambda>tls.
     bind_exn (getitem EXTRA_OPTIONS ''conch'') (\<lambda>conch.
     bind_exn (getitem EXTRA_OPTIONS ''serial'') (\<lambda>serial.
     bind_exn (getitem EXTRA_OPTIONS ''http2'') (\<lambda>http2.
     bind_exn (getitem EXTRA_OPTIONS ''contextvars'') (\<lambda>contextvars.
     Inr (tls @ conch @ serial @ http2 @ contextvars))))))"

definition EXTRAS_REQUIRE :: "exn + (string \<Rightarrow> string list option)" where
  "EXTRAS_REQUIRE =
     bind_exn PLATFORM_INDEPENDENT (\<lambda>platform_independent.
     bind_exn (getitem EXTRA_OPTIONS ''dev'') (\<lambda>dev_options.
     bind_exn (getitem EXTRA_OPTIONS ''tls'') (\<lambda>tls.
     bind_exn (getitem EXTRA_OPTIONS ''conch'') (\<lambda>conch.
     bind_exn (getitem EXTRA_OPTIONS ''serial'') (\<lambda>serial.
     bind_exn (getitem EXTRA_OPTIONS ''http2'') (\<lambda>http2.
     bind_exn (getitem EXTRA_OPTIONS ''contextvars'') (\<lambda>contextvars.
     bind_exn (getitem EXTRA_OPTIONS ''macos'') (\<lambda>macos.
     bind_exn (getitem EXTRA_OPTIONS ''windows'') (\<lambda>windows.
     let d = py_dict
               [(''dev'', dev_options),
                (''tls'', tls),
                (''conch'', conch),
                (''serial'', serial),
                (''http2'', http2),
                (''contextvars'', contextvars),
                (''all_non_platform'', platform_independent),
                (''macos_platform'', macos @ platform_independent),
                (''windows_platform'', windows @ platform_independent)]
     in bind_exn (getitem d ''macos_platform'') (\<lambda>macos_platform.
        Inr (d(''osx_platform'' \<mapsto> macos_platform))))))))))))"

subsection \<open>\<^verbatim>\<open>STATIC_PACKAGE_METADATA\<close>\<close>

text \<open>
  The values a setup argument takes in this module. \<open>ExtList\<close> is a list of references
  to extension objects; a class made by \<^verbatim>\<open>getSetupArgs\<close> is the record of its one class
  attribute.
\<close>

record my_build_ext =
  class_conditionalExtensions :: "addr list"

datatype pyval =
    Str string
  | Bool bool
  | StrList "string list"
  | StrDict "string \<Rightarrow> string option"
  | StrListDict "string \<Rightarrow> string list option"
  | ExtList "addr list"
  | CmdClass "string \<Rightarrow> my_build_ext option"

definition STATIC_PACKAGE_METADATA :: "string \<Rightarrow> pyval option" where
  "STATIC_PACKAGE_METADATA =
     py_dict
       [(''name'', Str ''Twisted''),
        (''description'', Str ''An asynchronous networking framework written in Python''),
        (''author'', Str ''Twisted Matrix Laboratories''),
        (''author_email'', Str ''twisted-python@twistedmatrix.com''),
        (''maintainer'', Str ''Glyph Lefkowitz''),
        (''maintainer_email'', Str ''glyph@twistedmatrix.com''),
        (''url'', Str ''https://twistedmatrix.com/''),
        (''project_urls'',
           StrDict (py_dict
             [(''Documentation'', ''https://twistedmatrix.com/documents/current/''),
              (''Source'', ''https://github.com/twisted/twisted''),
              (''Issues'', ''https://twistedmatrix.com/trac/report'')])),
        (''license'', Str ''MIT''),
        (''classifiers'',
           StrList
             [''Programming Language :: Python :: 3'',
              ''Programming Language :: Python :: 3 :: Only'',
              ''Programming Language :: Python :: 3.5'',
              ''Programming Language :: Python :: 3.6'',
              ''Programming Language :: Python :: 3.7'',
              ''Programming Language :: Python :: 3.8'']),
        (''python_requires'', Str ''>=3.5''),
        (''long_description_content_type'', Str ''text/x-rst''),
        (''install_requires'',
           StrList
             [''zope.interface >= 4.4.2'',
              ''constantly >= 15.1'',
              ''incremental >= 16.10.1'',
              ''Automat >= 0.8.0'',
              ''hyperlink >= 17.1.1'',
              ''PyHamcrest >= 1.9.0'',
              ''attrs >= 19.2.0'']),
        (''use_incremental'', Bool True),
        (''setup_requires'', StrList [''incremental >= 16.10.1'']),
        (''include_package_data'', Bool True),
        (''exclude_package_data'',
           StrListDict (py_dict
             [('''', [''*.c'', ''*.h'', ''*.pxi'', ''*.pyx'', ''build.bat''])])),
        (''zip_safe'', Bool False),
        (''package_dir'', StrDict (py_dict [('''', ''src'')])),
        (''entry_points'',
           StrListDict (py_dict
             [(''console_scripts'',
                 [''ckeygen = twisted.conch.scripts.ckeygen:run'',
                  ''cftp = twisted.conch.scripts.cftp:run'',
                  ''conch = twisted.conch.scripts.conch:run'',
                  ''mailmail = twisted.mail.scripts.mailmail:run'',
                  ''pyhtmlizer = twisted.scripts.htmlizer:run'',
                  ''tkconch = twisted.conch.scripts.tkconch:run'',
                  ''trial = twisted.scripts.trial:run'',
                  ''twist = twisted.application.twist._twist:Twist.main'',
                  ''twistd = twisted.scripts.twistd:run''])]))]"

subsection \<open>\<^verbatim>\<open>_longDescriptionFromReadme\<close>\<close>

text \<open>
  The text of a readme is a list of characters, each a code point below 256. The
  substitution is \<^verbatim>\<open>re.sub\<close> with the flag \<^verbatim>\<open>re.I\<close> and the pattern

  \<^verbatim>\<open>`([^`]+)\s+<(?!https?://)([^>]+)>`_\<close>

  \<open>isspace\<close> is the class \<^verbatim>\<open>\s\<close> of a string pattern on these code points.
\<close>

definition isspace :: "char \<Rightarrow> bool" where
  "isspace c \<longleftrightarrow>
     c \<in> set [CHR 0x09, CHR 0x0A, CHR 0x0B, CHR 0x0C, CHR 0x0D, CHR 0x1C, CHR 0x1D, CHR 0x1E,
              CHR 0x1F, CHR 0x20, CHR 0x85, CHR 0xA0]"

text \<open>
  Under \<^verbatim>\<open>re.I\<close> a letter of the pattern matches its upper and its lower case; the
  letters of \<^verbatim>\<open>https?://\<close> have no other case variant below 256.
\<close>

definition lower :: "char \<Rightarrow> char" where
  "lower c =
     (case map_of (zip ''ABCDEFGHIJKLMNOPQRSTUVWXYZ'' ''abcdefghijklmnopqrstuvwxyz'') c of
        None \<Rightarrow> c
      | Some l \<Rightarrow> l)"

fun imatch :: "string \<Rightarrow> string \<Rightarrow> bool" where
  "imatch [] s = True"
| "imatch (p # ps) [] = False"
| "imatch (p # ps) (c # cs) = (lower c = lower p \<and> imatch ps cs)"

text \<open>\<^verbatim>\<open>https?://\<close> at the start of the text: with the optional \<^verbatim>\<open>s\<close>, or without.\<close>

definition lookahead_http :: "string \<Rightarrow> bool" where
  "lookahead_http s \<longleftrightarrow> imatch ''https://'' s \<or> imatch ''http://'' s"

text \<open>
  The pattern from \<^verbatim>\<open>\s+\<close> on, matched at the start of the text: the second group and
  the text after the match. \<^verbatim>\<open>\s+\<close> takes all the white space there is, since the next
  character has to be \<^verbatim>\<open><\<close>, which a shorter run would leave before a white space;
  likewise \<^verbatim>\<open>[^>]+\<close> runs to the first \<^verbatim>\<open>>\<close>.
\<close>

definition match_tail :: "string \<Rightarrow> (string \<times> string) option" where
  "match_tail t =
     (if takeWhile isspace t = [] then None
      else
        (case dropWhile isspace t of
           [] \<Rightarrow> None
         | c # t2 \<Rightarrow>
             if c \<noteq> CHR ''<'' then None
             else if lookahead_http t2 then None
             else if takeWhile (\<lambda>c. c \<noteq> CHR ''>'') t2 = [] then None
             else
               (case dropWhile (\<lambda>c. c \<noteq> CHR ''>'') t2 of
                  c1 # c2 # c3 # rest \<Rightarrow>
                    if c1 = CHR ''>'' \<and> c2 = CHR 0x60 \<and> c3 = CHR ''_''
                    then Some (takeWhile (\<lambda>c. c \<noteq> CHR ''>'') t2, rest)
                    else None
                | _ \<Rightarrow> None)))"

text \<open>
  The first group, \<^verbatim>\<open>[^`]+\<close>, is greedy and backtracks: it is tried with the \<open>k\<close> first
  characters of the text, then with one less, down to one, and the first length for which
  the rest of the pattern matches is the match.
\<close>

fun match_label :: "nat \<Rightarrow> string \<Rightarrow> (string \<times> string \<times> string) option" where
  "match_label 0 r = None"
| "match_label (Suc k) r =
     (case match_tail (drop (Suc k) r) of
        Some (g2, rest) \<Rightarrow> Some (take (Suc k) r, g2, rest)
      | None \<Rightarrow> match_label k r)"

text \<open>
  A match of the whole pattern at the start of the text: the two groups and the text
  after the match. The longest first group is as long as the run of characters other
  than \<^verbatim>\<open>`\<close>.
\<close>

fun match_at :: "string \<Rightarrow> (string \<times> string \<times> string) option" where
  "match_at [] = None"
| "match_at (c # r) =
     (if c = CHR 0x60 then match_label (length (takeWhile (\<lambda>c. c \<noteq> CHR 0x60) r)) r
      else None)"

text \<open>The replacement template, \<^verbatim>\<open>`\1 <https://github.com/twisted/twisted/blob/trunk/\2>`_\<close>.\<close>

definition expand :: "string \<Rightarrow> string \<Rightarrow> string" where
  "expand g1 g2 =
     [CHR 0x60] @ g1 @ '' <https://github.com/twisted/twisted/blob/trunk/'' @ g2 @
     ''>'' @ [CHR 0x60] @ ''_''"

lemma match_tail_shorter: "match_tail t = Some (g2, rest) \<Longrightarrow> length rest < length t"
proof -
  assume m: "match_tail t = Some (g2, rest)"
  then obtain c t2 where t1: "dropWhile isspace t = c # t2"
    by (auto simp add: match_tail_def split: if_splits list.splits)
  from m t1 obtain c1 c2 c3 where t3: "dropWhile (\<lambda>c. c \<noteq> CHR ''>'') t2 = c1 # c2 # c3 # rest"
    by (auto simp add: match_tail_def split: if_splits list.splits)
  have "length (dropWhile (\<lambda>c. c \<noteq> CHR ''>'') t2) \<le> length t2"
    by (rule length_dropWhile_le)
  moreover have "length (dropWhile isspace t) \<le> length t"
    by (rule length_dropWhile_le)
  ultimately show ?thesis using t1 t3 by simp
qed

lemma match_label_shorter:
  "match_label k r = Some (g1, g2, rest) \<Longrightarrow> length rest < length r"
proof (induction k)
  case 0
  then show ?case by simp
next
  case (Suc k)
  show ?case
  proof (cases "match_tail (drop (Suc k) r)")
    case None
    with Suc show ?thesis by simp
  next
    case (Some m)
    obtain g2' rest' where m: "m = (g2', rest')" by (cases m)
    with Some Suc.prems have "rest' = rest" by simp
    with Some m have "length rest < length (drop (Suc k) r)"
      using match_tail_shorter by blast
    then show ?thesis by simp
  qed
qed

lemma match_at_shorter: "match_at s = Some (g1, g2, rest) \<Longrightarrow> length rest < length s"
proof (cases s)
  case Nil
  assume "match_at s = Some (g1, g2, rest)"
  with Nil show ?thesis by simp
next
  case (Cons c r)
  assume "match_at s = Some (g1, g2, rest)"
  with Cons have "length rest < length r"
    using match_label_shorter by (auto split: if_splits)
  with Cons show ?thesis by simp
qed

text \<open>
  \<^verbatim>\<open>re.sub\<close>: the text is scanned from the left; where the pattern matches, the match
  is replaced by the expanded template and the scan goes on after the match; where it does
  not, the character is kept and the scan goes on with the next one.
\<close>

function re_sub :: "string \<Rightarrow> string" where
  "re_sub [] = []"
| "re_sub (c # cs) =
     (case match_at (c # cs) of
        Some (g1, g2, rest) \<Rightarrow> expand g1 g2 @ re_sub rest
      | None \<Rightarrow> c # re_sub cs)"
  by pat_completeness auto
termination
proof (relation "measure length")
  show "wf (measure length)" by simp
next
  fix c cs x2 x y xa ya
  assume "match_at (c # cs) = Some x2" and "(x, y) = x2" and "(xa, ya) = y"
  then have "match_at (c # cs) = Some (x, xa, ya)" by simp
  then have "length ya < length (c # cs)" by (rule match_at_shorter)
  then show "(ya, c # cs) \<in> measure length" by simp
next
  fix c cs
  show "(cs, c # cs) \<in> measure length" by simp
qed



text \<open>
  The function: \<^verbatim>\<open>io.open(readme)\<close> raises \<^verbatim>\<open>FileNotFoundError\<close> when there is no such
  file; otherwise the text read is substituted.
\<close>

definition longDescriptionFromReadme :: "files \<Rightarrow> string \<Rightarrow> exn + string" where
  "longDescriptionFromReadme fs readme =
     (case fs readme of
        None \<Rightarrow> Inl (EnvironmentError ''FileNotFoundError'')
      | Some readmeRst \<Rightarrow> Inr (re_sub readmeRst))"

subsection \<open>\<^verbatim>\<open>getSetupArgs\<close>\<close>

text \<open>
  \<^verbatim>\<open>find_packages\<close> is setuptools' and is a parameter. The class statement makes
  \<^verbatim>\<open>my_build_ext\<close>; the display is evaluated from the left, so the readme is read before
  the other items are made, and the items of \<^verbatim>\<open>**STATIC_PACKAGE_METADATA\<close> come last and
  would replace an earlier item with the same key. \<^verbatim>\<open>_EXTRAS_REQUIRE\<close> is the value the
  module's top level computed.
\<close>

definition getSetupArgs ::
  "(string \<Rightarrow> string list) \<Rightarrow> files \<Rightarrow> addr list \<Rightarrow> string \<Rightarrow> exn + (string \<Rightarrow> pyval option)" where
  "getSetupArgs find_packages fs extensions_arg readme =
     bind_exn EXTRAS_REQUIRE (\<lambda>extras_require.
     let my_build_ext = \<lparr>class_conditionalExtensions = extensions_arg\<rparr>;
         packages = find_packages ''src''
     in bind_exn (longDescriptionFromReadme fs readme) (\<lambda>long_description.
        Inr (py_dict
               [(''packages'', StrList packages),
                (''long_description'', Str long_description),
                (''ext_modules'', ExtList extensions_arg),
                (''cmdclass'', CmdClass (py_dict [(''build_ext'', my_build_ext)])),
                (''extras_require'', StrListDict extras_require)]
             ++ STATIC_PACKAGE_METADATA)))"

subsection \<open>Version constraints\<close>

text \<open>
  A specifier constrains the version when its requirement, the part before an environment
  marker (\<^verbatim>\<open>;\<close>), has a comparison operator: \<^verbatim>\<open>~=\<close>, \<^verbatim>\<open>==\<close>, \<^verbatim>\<open>!=\<close>, \<^verbatim>\<open><=\<close>, \<^verbatim>\<open>>=\<close>,
  \<^verbatim>\<open><\<close> or \<^verbatim>\<open>>\<close>. The specifiers of the module that have none are listed.
\<close>

definition version_constrained :: "string \<Rightarrow> bool" where
  "version_constrained spec \<longleftrightarrow>
     list_ex (\<lambda>c. c \<in> set ''<>=!~'') (takeWhile (\<lambda>c. c \<noteq> CHR '';'') spec)"

definition unconstrained :: "string list" where
  "unconstrained =
     [''pyasn1'', ''python-subunit'', ''pyobjc-core'', ''pyobjc-framework-CFNetwork'',
      ''pyobjc-framework-Cocoa'']"

subsection \<open>Concrete inputs\<close>

text \<open>
  A compiler that rejects a source named \<^verbatim>\<open>broken.c\<close> and a \<^verbatim>\<open>conftest.c\<close> that holds
  \<^verbatim>\<open>#error\<close>, and leaves \<^verbatim>\<open>conftest.o\<close> behind otherwise.
\<close>

definition example_compiler :: compiler where
  "example_compiler srcs macros fs =
     (if ''broken.c'' \<in> set srcs \<or> fs ''conftest.c'' = Some ''#error''
      then (Some CompileError, fs)
      else (None, fs(''conftest.o'' \<mapsto> ''object code'')))"

definition nt_builder :: builder where
  "nt_builder =
     \<lparr>os_name = ''nt'', sys_platform = ''win32'', compiler = example_compiler,
      define_macros = [], conditionalExtensions = [0, 1], extensions = []\<rparr>"

definition posix_builder :: builder where
  "posix_builder =
     \<lparr>os_name = ''posix'', sys_platform = ''linux'', compiler = example_compiler,
      define_macros = [], conditionalExtensions = [0, 1], extensions = []\<rparr>"

definition sunos_builder :: builder where
  "sunos_builder =
     \<lparr>os_name = ''posix'', sys_platform = ''sunos5'', compiler = example_compiler,
      define_macros = [], conditionalExtensions = [0, 1], extensions = []\<rparr>"

text \<open>
  A store with two objects of interest: at 0 an extension with no condition keyword, at
  1 one whose condition is constantly false. Neither is given \<^verbatim>\<open>define_macros\<close>, so the
  first has the new list object 0 and the second the new list object 1, both empty.
\<close>

definition example_lists :: lists where
  "example_lists = (\<lambda>l. [])"

definition example_heap :: heap where
  "example_heap =
     (\<lambda>a. fst (ConditionalExtension ''unused'' [] no_kwargs 2 example_lists))
       (0 := fst (ConditionalExtension ''good'' [''good.c''] no_kwargs 0 example_lists),
        1 := fst (ConditionalExtension ''bad'' [''bad.c'']
                    (no_kwargs\<lparr>kw_condition := Some (\<lambda>b. False)\<rparr>) 1 example_lists))"

text \<open>The same, the first extension with a source the compiler rejects.\<close>

definition broken_heap :: heap where
  "broken_heap =
     example_heap
       (0 := fst (ConditionalExtension ''whatever'' [''broken.c''] no_kwargs 0 example_lists))"

text \<open>The same again, the extension declared \<^verbatim>\<open>optional=True\<close>.\<close>

definition optional_heap :: heap where
  "optional_heap =
     example_heap
       (0 := fst (ConditionalExtension ''whatever'' [''broken.c'']
                    (no_kwargs\<lparr>kw_optional := Some True\<rparr>) 0 example_lists))"

text \<open>
  Two extensions built over one list object, as in

  \<^verbatim>\<open>macros = [("A", 1)]\<close>

  \<^verbatim>\<open>first = ConditionalExtension("first", ["first.c"], define_macros=macros)\<close>

  \<^verbatim>\<open>second = ConditionalExtension("second", ["second.c"], define_macros=macros,\<close>
  \<^verbatim>\<open>condition=lambda builder: False)\<close>

  The list object \<^verbatim>\<open>macros\<close> is at 5; it is not empty, so neither construction makes a
  new one.
\<close>

definition shared_lists :: lists where
  "shared_lists = (\<lambda>l. [])(5 := [(''A'', 1)])"

definition shared_heap :: heap where
  "shared_heap =
     example_heap
       (0 := fst (ConditionalExtension ''first'' [''first.c'']
                    (no_kwargs\<lparr>kw_define_macros := Some 5\<rparr>) 6 shared_lists),
        1 := fst (ConditionalExtension ''second'' [''second.c'']
                    (no_kwargs\<lparr>kw_define_macros := Some 5,
                       kw_condition := Some (\<lambda>b. False)\<rparr>) 7 shared_lists))"

text \<open>
  Three operating systems: one that refuses nothing; one that refuses to remove
  \<^verbatim>\<open>conftest.obj\<close> (\<^verbatim>\<open>PermissionError\<close>); and one that refuses to open \<^verbatim>\<open>conftest.c\<close>
  for writing (\<^verbatim>\<open>PermissionError\<close>).
\<close>

definition permissive_os :: os where
  "permissive_os =
     \<lparr>open_error = (\<lambda>filename. None), write_error = (\<lambda>filename content. None),
      unlink_error = (\<lambda>filename. None)\<rparr>"

definition sticky_os :: os where
  "sticky_os =
     permissive_os\<lparr>unlink_error :=
       (\<lambda>filename. if filename = ''conftest.obj'' then Some ''PermissionError'' else None)\<rparr>"

definition readonly_os :: os where
  "readonly_os =
     permissive_os\<lparr>open_error :=
       (\<lambda>filename. if filename = ''conftest.c''
          then Some (EnvironmentError ''PermissionError'') else None)\<rparr>"

section \<open>Properties\<close>

subsection \<open>The builder after \<^verbatim>\<open>prepare_extensions\<close>\<close>

lemma prepare_extensions_builder:
  "fst (prepare_extensions self h ls) =
     self\<lparr>builder.define_macros := platform_macros self,
          extensions :=
            filter (\<lambda>x. condition (h x) (self\<lparr>builder.define_macros := platform_macros self\<rparr>))
              (conditionalExtensions self)\<rparr>"
  by (simp add: prepare_extensions_def platform_macros_def Let_def)

text \<open>
  Claim C1. For every list of references to extension objects, every store and every
  builder, the \<^verbatim>\<open>extensions\<close> attribute after \<^verbatim>\<open>prepare_extensions\<close> is the list
  \<^verbatim>\<open>conditionalExtensions\<close> filtered by the objects' conditions, in the original order,
  and \<^verbatim>\<open>conditionalExtensions\<close> itself is the list it was. The builder a condition is
  called on is \<^verbatim>\<open>self\<close> at the time of the call: the builder the method was called on
  with its macros assigned, which is the builder the method leaves but for its
  \<^verbatim>\<open>extensions\<close>, which still has the value from before the call.
\<close>

theorem prepare_extensions_selects:
  "extensions (fst (prepare_extensions self h ls)) =
     filter (\<lambda>x. condition (h x) (self\<lparr>builder.define_macros := platform_macros self\<rparr>))
       (conditionalExtensions self)
   \<and> self\<lparr>builder.define_macros := platform_macros self\<rparr> =
       (fst (prepare_extensions self h ls))\<lparr>extensions := extensions self\<rparr>
   \<and> conditionalExtensions (fst (prepare_extensions self h ls)) = conditionalExtensions self"
  by (simp add: prepare_extensions_builder)

subsection \<open>The list objects after \<^verbatim>\<open>prepare_extensions\<close>\<close>

lemma extend_all_at:
  "extend_all h as ms ls l =
     ls l @ concat (replicate (count_list (map (\<lambda>a. extension.define_macros (h a)) as) l) ms)"
proof (induction as arbitrary: ls)
  case Nil
  show ?case by simp
next
  case (Cons a as)
  show ?case
  proof (cases "extension.define_macros (h a) = l")
    case True
    then show ?thesis by (simp add: Cons.IH)
  next
    case False
    then show ?thesis by (simp add: Cons.IH)
  qed
qed

lemma prepare_extensions_lists:
  "snd (prepare_extensions self h ls) =
     extend_all h (extensions (fst (prepare_extensions self h ls))) (platform_macros self) ls"
  by (simp add: prepare_extensions_def platform_macros_def Let_def)

lemma prepare_extensions_at:
  "snd (prepare_extensions self h ls) l =
     ls l @
     concat (replicate
       (count_list
          (map (\<lambda>a. extension.define_macros (h a))
             (extensions (fst (prepare_extensions self h ls)))) l)
       (platform_macros self))"
  by (simp only: prepare_extensions_lists [of self h ls] extend_all_at)

lemma example_selected:
  "extensions (fst (prepare_extensions nt_builder example_heap ls)) = [0]"
  "extensions (fst (prepare_extensions posix_builder example_heap ls)) = [0]"
  "extensions (fst (prepare_extensions sunos_builder example_heap ls)) = [0]"
  by (simp_all add: prepare_extensions_builder nt_builder_def posix_builder_def
      sunos_builder_def example_heap_def ConditionalExtension_def Extension_init_def
      no_kwargs_def Let_def)

lemma example_platform_macros:
  "platform_macros nt_builder = [(''WIN32'', 1)]"
  "platform_macros posix_builder = []"
  "platform_macros sunos_builder = [(''_XOPEN_SOURCE'', 1), (''_XOPEN_SOURCE_EXTENDED'', 1)]"
  by (simp_all add: platform_macros_def nt_builder_def posix_builder_def sunos_builder_def)

lemma example_heap_macros:
  "extension.define_macros (example_heap 0) = 0"
  "extension.define_macros (example_heap 1) = 1"
  "extension.define_macros (example_heap (Suc 0)) = Suc 0"
  by (simp_all add: example_heap_def ConditionalExtension_def Extension_init_def no_kwargs_def
      Let_def)

lemma shared_selected:
  "extensions (fst (prepare_extensions nt_builder shared_heap ls)) = [0]"
  by (simp add: prepare_extensions_builder nt_builder_def shared_heap_def example_heap_def
      ConditionalExtension_def Extension_init_def no_kwargs_def Let_def)

lemma shared_heap_macros:
  "extension.define_macros (shared_heap 0) = 5"
  "extension.define_macros (shared_heap 1) = 5"
  "extension.define_macros (shared_heap (Suc 0)) = 5"
  by (simp_all add: shared_heap_def example_heap_def shared_lists_def ConditionalExtension_def
      Extension_init_def no_kwargs_def Let_def)

text \<open>
  Claim C7, as stated, fails: on Windows the descriptor at address 0, which is in
  \<^verbatim>\<open>conditionalExtensions\<close> and is selected, has an empty \<^verbatim>\<open>define_macros\<close> list before
  \<^verbatim>\<open>prepare_extensions\<close> and the list \<^verbatim>\<open>[("WIN32", 1)]\<close> after it.
\<close>

theorem prepare_extensions_readonly_counterexample:
  "0 \<in> set (conditionalExtensions nt_builder)
   \<and> example_lists (extension.define_macros (example_heap 0)) = []
   \<and> snd (prepare_extensions nt_builder example_heap example_lists)
        (extension.define_macros (example_heap 0)) = [(''WIN32'', 1)]"
  by (simp add: prepare_extensions_at example_selected example_platform_macros
      example_heap_macros example_lists_def) (simp add: nt_builder_def)

text \<open>
  Claim C7, amended. \<^verbatim>\<open>prepare_extensions\<close> assigns no attribute of an extension object
  (the method has no such statement, so the store of objects is not among its results),
  but it is not read-only: it changes the \<^verbatim>\<open>define_macros\<close> list objects of the selected
  descriptors in place. Each list object gets the platform macros appended once for each
  selected reference whose descriptor refers to it, and nothing else. So a list object
  that no selected descriptor refers to is left as it was, and where there are no
  platform macros (\<^verbatim>\<open>os.name\<close> is not \<^verbatim>\<open>nt\<close> and \<^verbatim>\<open>sys.platform\<close> does not start with
  \<^verbatim>\<open>sunos\<close>) every list object is.
\<close>

theorem prepare_extensions_frame:
  "snd (prepare_extensions self h ls) l =
     ls l @
     concat (replicate
       (count_list
          (map (\<lambda>a. extension.define_macros (h a))
             (extensions (fst (prepare_extensions self h ls)))) l)
       (platform_macros self))
   \<and> (l \<notin> (\<lambda>a. extension.define_macros (h a)) `
             set (extensions (fst (prepare_extensions self h ls))) \<longrightarrow>
        snd (prepare_extensions self h ls) l = ls l)
   \<and> (os_name self \<noteq> ''nt'' \<and> \<not> prefix ''sunos'' (sys_platform self) \<longrightarrow>
        snd (prepare_extensions self h ls) = ls)"
proof -
  let ?sel = "extensions (fst (prepare_extensions self h ls))"
  let ?refs = "map (\<lambda>a. extension.define_macros (h a)) ?sel"
  have at: "snd (prepare_extensions self h ls) k =
      ls k @ concat (replicate (count_list ?refs k) (platform_macros self))" for k
    by (rule prepare_extensions_at)
  have unreferenced: "snd (prepare_extensions self h ls) l = ls l"
    if "l \<notin> (\<lambda>a. extension.define_macros (h a)) ` set ?sel"
  proof -
    from that have "l \<notin> set ?refs" by simp
    then have "count_list ?refs l = 0" by (simp add: count_list_0_iff)
    then show ?thesis using at [of l] by simp
  qed
  have unchanged: "snd (prepare_extensions self h ls) = ls"
    if "os_name self \<noteq> ''nt'' \<and> \<not> prefix ''sunos'' (sys_platform self)"
  proof
    fix k
    from that have "platform_macros self = []" by (simp add: platform_macros_def)
    then show "snd (prepare_extensions self h ls) k = ls k" using at [of k] by simp
  qed
  from at [of l] unreferenced unchanged show ?thesis by blast
qed

theorem prepare_extensions_frame_witness:
  "snd (prepare_extensions nt_builder example_heap example_lists) 1 = example_lists 1
   \<and> snd (prepare_extensions posix_builder example_heap example_lists) = example_lists
   \<and> snd (prepare_extensions nt_builder example_heap example_lists) 0 = [(''WIN32'', 1)]"
proof -
  have "snd (prepare_extensions nt_builder example_heap example_lists) 1 = example_lists 1"
    using prepare_extensions_frame [of nt_builder example_heap example_lists 1]
    by (simp add: example_selected example_heap_macros)
  moreover have "snd (prepare_extensions posix_builder example_heap example_lists) = example_lists"
    using prepare_extensions_frame [of posix_builder example_heap example_lists 0]
    by (simp add: posix_builder_def)
  moreover have
    "snd (prepare_extensions nt_builder example_heap example_lists) 0 = [(''WIN32'', 1)]"
    using prepare_extensions_frame [of nt_builder example_heap example_lists 0]
    by (simp add: example_selected example_platform_macros example_heap_macros
        example_lists_def)
  ultimately show ?thesis by simp
qed

subsection \<open>The macros the selected extensions receive\<close>

lemma concat_replicate_Suc_right:
  "concat (replicate (Suc n) xs) = concat (replicate n xs) @ xs"
  by (induction n) simp_all

lemma suffix_concat_replicate:
  "0 < n \<Longrightarrow> suffix xs (ys @ concat (replicate n xs))"
proof -
  assume "0 < n"
  then obtain k where n: "n = Suc k" by (cases n) simp_all
  have "ys @ concat (replicate n xs) = (ys @ concat (replicate k xs)) @ xs"
    unfolding n concat_replicate_Suc_right by simp
  then show ?thesis unfolding suffix_def by blast
qed

lemma count_list_distinct:
  "distinct xs \<Longrightarrow> x \<in> set xs \<Longrightarrow> count_list xs x = 1"
  by (induction xs) auto

text \<open>
  Claim C10, as stated, fails in its last clause. The two descriptors at 0 and 1 were
  built over one list object, \<^verbatim>\<open>[("A", 1)]\<close>. On Windows the first is selected and the
  second is not, and after \<^verbatim>\<open>prepare_extensions\<close> the \<^verbatim>\<open>define_macros\<close> list of the
  second, which is the list of the first, is \<^verbatim>\<open>[("A", 1), ("WIN32", 1)]\<close>: the extension
  that is not selected has received the macro.
\<close>

theorem prepare_extensions_shared_list_counterexample:
  "conditionalExtensions nt_builder = [0, 1]
   \<and> extensions (fst (prepare_extensions nt_builder shared_heap shared_lists)) = [0]
   \<and> shared_lists (extension.define_macros (shared_heap 1)) = [(''A'', 1)]
   \<and> snd (prepare_extensions nt_builder shared_heap shared_lists)
        (extension.define_macros (shared_heap 1)) = [(''A'', 1), (''WIN32'', 1)]"
  by (simp add: prepare_extensions_at shared_selected example_platform_macros
      shared_heap_macros shared_lists_def) (simp add: nt_builder_def)

text \<open>
  Claim C10, amended. The platform macros are \<^verbatim>\<open>("WIN32", 1)\<close> iff \<^verbatim>\<open>os.name\<close> is
  \<^verbatim>\<open>nt\<close>, and \<^verbatim>\<open>("_XOPEN_SOURCE", 1)\<close> and \<^verbatim>\<open>("_XOPEN_SOURCE_EXTENDED", 1)\<close> iff
  \<^verbatim>\<open>sys.platform\<close> starts with \<^verbatim>\<open>sunos\<close>, and nothing else. After \<^verbatim>\<open>prepare_extensions\<close>
  the \<^verbatim>\<open>define_macros\<close> list of every selected extension ends with them and begins with
  the list from before; it is the list from before with the platform macros appended
  once when the selected references have pairwise different list objects. An extension,
  selected or not, sees the platform macros once for each selected reference that shares
  its list object; so an extension whose list object no selected extension refers to,
  which is then not selected itself, receives no macros.
\<close>

theorem prepare_extensions_macros:
  "(x \<in> set (extensions (fst (prepare_extensions self h ls))) \<longrightarrow>
      suffix (platform_macros self)
        (snd (prepare_extensions self h ls) (extension.define_macros (h x)))
      \<and> (distinct (map (\<lambda>a. extension.define_macros (h a))
                    (extensions (fst (prepare_extensions self h ls)))) \<longrightarrow>
           snd (prepare_extensions self h ls) (extension.define_macros (h x)) =
             ls (extension.define_macros (h x)) @ platform_macros self))
   \<and> prefix (ls (extension.define_macros (h x)))
       (snd (prepare_extensions self h ls) (extension.define_macros (h x)))
   \<and> snd (prepare_extensions self h ls) (extension.define_macros (h x)) =
       ls (extension.define_macros (h x)) @
       concat (replicate
         (count_list
            (map (\<lambda>a. extension.define_macros (h a))
               (extensions (fst (prepare_extensions self h ls))))
            (extension.define_macros (h x)))
         (platform_macros self))
   \<and> (extension.define_macros (h x) \<notin>
          (\<lambda>a. extension.define_macros (h a)) `
             set (extensions (fst (prepare_extensions self h ls))) \<longrightarrow>
        x \<notin> set (extensions (fst (prepare_extensions self h ls)))
        \<and> snd (prepare_extensions self h ls) (extension.define_macros (h x)) =
            ls (extension.define_macros (h x)))
   \<and> ((''WIN32'', 1) \<in> set (platform_macros self) \<longleftrightarrow> os_name self = ''nt'')
   \<and> ((''_XOPEN_SOURCE'', 1) \<in> set (platform_macros self) \<longleftrightarrow>
        prefix ''sunos'' (sys_platform self))
   \<and> ((''_XOPEN_SOURCE_EXTENDED'', 1) \<in> set (platform_macros self) \<longleftrightarrow>
        prefix ''sunos'' (sys_platform self))
   \<and> set (platform_macros self) \<subseteq>
        {(''WIN32'', 1), (''_XOPEN_SOURCE'', 1), (''_XOPEN_SOURCE_EXTENDED'', 1)}
   \<and> distinct (platform_macros self)"
proof -
  let ?sel = "extensions (fst (prepare_extensions self h ls))"
  let ?refs = "map (\<lambda>a. extension.define_macros (h a)) ?sel"
  let ?pm = "platform_macros self"
  let ?l = "extension.define_macros (h x)"
  let ?after = "snd (prepare_extensions self h ls) ?l"
  have after: "?after = ls ?l @ concat (replicate (count_list ?refs ?l) ?pm)"
    by (rule prepare_extensions_at)
  have ref: "?l \<in> set ?refs" if "x \<in> set ?sel"
    using that by simp
  have ends: "suffix ?pm ?after" if "x \<in> set ?sel"
  proof -
    from that have "?l \<in> set ?refs" by (rule ref)
    then have "count_list ?refs ?l \<noteq> 0" by (simp add: count_list_0_iff)
    then have "0 < count_list ?refs ?l" by simp
    then show ?thesis unfolding after by (rule suffix_concat_replicate)
  qed
  have starts: "prefix (ls ?l) ?after"
    unfolding after by simp
  have once: "?after = ls ?l @ ?pm" if "x \<in> set ?sel" and "distinct ?refs"
  proof -
    from that(1) have "?l \<in> set ?refs" by (rule ref)
    with that(2) have "count_list ?refs ?l = 1" by (rule count_list_distinct)
    then show ?thesis unfolding after by simp
  qed
  have none: "x \<notin> set ?sel \<and> ?after = ls ?l"
    if "?l \<notin> (\<lambda>a. extension.define_macros (h a)) ` set ?sel"
  proof -
    from that have n: "?l \<notin> set ?refs" by simp
    then have "count_list ?refs ?l = 0" by (simp add: count_list_0_iff)
    then have "?after = ls ?l" unfolding after by simp
    moreover from n ref have "x \<notin> set ?sel" by blast
    ultimately show ?thesis by simp
  qed
  have win: "(''WIN32'', 1) \<in> set ?pm \<longleftrightarrow> os_name self = ''nt''"
    by (simp add: platform_macros_def)
  have xopen: "(''_XOPEN_SOURCE'', 1) \<in> set ?pm \<longleftrightarrow> prefix ''sunos'' (sys_platform self)"
    by (simp add: platform_macros_def)
  have xopen_ext:
    "(''_XOPEN_SOURCE_EXTENDED'', 1) \<in> set ?pm \<longleftrightarrow> prefix ''sunos'' (sys_platform self)"
    by (simp add: platform_macros_def)
  have only: "set ?pm \<subseteq>
      {(''WIN32'', 1), (''_XOPEN_SOURCE'', 1), (''_XOPEN_SOURCE_EXTENDED'', 1)}"
    by (auto simp add: platform_macros_def)
  have dist: "distinct ?pm"
    by (simp add: platform_macros_def)
  from ends starts once none after win xopen xopen_ext only dist show ?thesis by blast
qed

theorem prepare_extensions_macros_witness:
  "snd (prepare_extensions nt_builder example_heap example_lists)
     (extension.define_macros (example_heap 0)) = [(''WIN32'', 1)]
   \<and> snd (prepare_extensions sunos_builder example_heap example_lists)
       (extension.define_macros (example_heap 0)) =
       [(''_XOPEN_SOURCE'', 1), (''_XOPEN_SOURCE_EXTENDED'', 1)]
   \<and> snd (prepare_extensions nt_builder example_heap example_lists)
       (extension.define_macros (example_heap 1)) = []
   \<and> snd (prepare_extensions nt_builder shared_heap shared_lists)
       (extension.define_macros (shared_heap 0)) = [(''A'', 1), (''WIN32'', 1)]"
proof -
  have "snd (prepare_extensions nt_builder example_heap example_lists)
      (extension.define_macros (example_heap 0)) = [(''WIN32'', 1)]"
    using prepare_extensions_macros [of 0 nt_builder example_heap example_lists]
    by (simp add: example_selected example_platform_macros example_heap_macros
        example_lists_def)
  moreover have
    "snd (prepare_extensions sunos_builder example_heap example_lists)
      (extension.define_macros (example_heap 0)) =
      [(''_XOPEN_SOURCE'', 1), (''_XOPEN_SOURCE_EXTENDED'', 1)]"
    using prepare_extensions_macros [of 0 sunos_builder example_heap example_lists]
    by (simp add: example_selected example_platform_macros example_heap_macros
        example_lists_def)
  moreover have
    "snd (prepare_extensions nt_builder example_heap example_lists)
      (extension.define_macros (example_heap 1)) = []"
    using prepare_extensions_macros [of 1 nt_builder example_heap example_lists]
    by (simp add: example_selected example_heap_macros example_lists_def)
  moreover have
    "snd (prepare_extensions nt_builder shared_heap shared_lists)
      (extension.define_macros (shared_heap 0)) = [(''A'', 1), (''WIN32'', 1)]"
    using prepare_extensions_macros [of 0 nt_builder shared_heap shared_lists]
    by (simp add: shared_selected example_platform_macros shared_heap_macros
        shared_lists_def)
  ultimately show ?thesis by simp
qed

subsection \<open>\<^verbatim>\<open>_compile_helper\<close>\<close>

lemma unlink_result:
  "unlink sys filename fs =
     (if fs filename = None then Some (EnvironmentError ''FileNotFoundError'')
      else (case unlink_error sys filename of
              Some cls \<Rightarrow> Some (EnvironmentError cls) | None \<Rightarrow> None),
      if unlink_error sys filename = None then fs(filename := None) else fs)"
proof (cases "fs filename")
  case None
  then have "fs(filename := None) = fs" by auto
  with None show ?thesis by (simp add: unlink_def)
next
  case (Some content)
  then show ?thesis by (simp add: unlink_def split: option.splits)
qed

lemma remove_conftest_loop_step:
  "remove_conftest_loop sys (filename # filenames) fs =
     remove_conftest_loop sys filenames
       (if unlink_error sys filename = None then fs(filename := None) else fs)"
  by (auto simp add: unlink_result split: option.splits)

lemma remove_conftest_loop_result:
  "remove_conftest_loop sys filenames fs =
     (None, \<lambda>f. if f \<in> set filenames \<and> unlink_error sys f = None then None else fs f)"
proof (induction filenames arbitrary: fs)
  case Nil
  show ?case by simp
next
  case (Cons filename filenames)
  show ?case
    unfolding remove_conftest_loop_step Cons.IH by (auto simp add: fun_eq_iff)
qed

lemma remove_conftest_result:
  "remove_conftest sys fs =
     (None,
      \<lambda>f. if f \<in> {''conftest.c'', ''conftest.o'', ''conftest.obj''} \<and> unlink_error sys f = None
          then None else fs f)"
  by (simp add: remove_conftest_def remove_conftest_loop_result)

lemma compile_helper_open_fails:
  "open_error sys ''conftest.c'' = Some e \<Longrightarrow>
   compile_helper sys self content fs = (Inl e, fs)"
  by (simp add: compile_helper_def open_w_def)

lemma compile_helper_write_fails:
  "open_error sys ''conftest.c'' = None \<Longrightarrow>
   write_error sys ''conftest.c'' content = Some (e, left) \<Longrightarrow>
   compile_helper sys self content fs =
     (Inl e,
      \<lambda>f. if f \<in> {''conftest.c'', ''conftest.o'', ''conftest.obj''} \<and> unlink_error sys f = None
          then None else (fs(''conftest.c'' \<mapsto> left)) f)"
  by (simp add: compile_helper_def open_w_def write_close_def remove_conftest_result
      cong: if_cong)

lemma compile_helper_cases:
  "open_error sys ''conftest.c'' = None \<Longrightarrow>
   write_error sys ''conftest.c'' content = None \<Longrightarrow>
   compile_helper sys self content fs =
     (case compiler self [''conftest.c''] [] (fs(''conftest.c'' \<mapsto> content)) of
        (r, fs3) \<Rightarrow>
          ((case r of None \<Rightarrow> Inr True | Some CompileError \<Rightarrow> Inr False | Some e \<Rightarrow> Inl e),
           \<lambda>f. if f \<in> {''conftest.c'', ''conftest.o'', ''conftest.obj''}
                   \<and> unlink_error sys f = None
               then None else fs3 f))"
  by (simp add: compile_helper_def open_w_def write_close_def remove_conftest_result
      split: prod.splits option.splits exn.splits)

lemma compile_helper_runs:
  assumes "open_error sys ''conftest.c'' = None"
    and "write_error sys ''conftest.c'' content = None"
  shows
    "(fst (compile_helper sys self content fs) = Inr False \<longleftrightarrow>
        fst (compiler self [''conftest.c''] [] (fs(''conftest.c'' \<mapsto> content))) =
          Some CompileError)
     \<and> (fst (compile_helper sys self content fs) = Inr True \<longleftrightarrow>
          fst (compiler self [''conftest.c''] [] (fs(''conftest.c'' \<mapsto> content))) = None)
     \<and> (fst (compile_helper sys self content fs) = Inl e \<longleftrightarrow>
          fst (compiler self [''conftest.c''] [] (fs(''conftest.c'' \<mapsto> content))) = Some e
          \<and> e \<noteq> CompileError)
     \<and> snd (compile_helper sys self content fs) =
         (\<lambda>f. if f \<in> {''conftest.c'', ''conftest.o'', ''conftest.obj''}
                 \<and> unlink_error sys f = None
              then None
              else snd (compiler self [''conftest.c''] [] (fs(''conftest.c'' \<mapsto> content))) f)"
proof (cases "compiler self [''conftest.c''] [] (fs(''conftest.c'' \<mapsto> content))")
  case (Pair r fs3)
  show ?thesis
  proof (cases r)
    case None
    with Pair show ?thesis by (simp add: compile_helper_cases [OF assms] cong: if_cong)
  next
    case (Some e')
    with Pair show ?thesis
      by (cases e') (auto simp add: compile_helper_cases [OF assms] cong: if_cong)
  qed
qed

text \<open>
  Claim C9, as stated, fails in what it says of the temporary files. First, a file the
  operating system refuses to remove stays: with a \<^verbatim>\<open>conftest.obj\<close> in the directory
  whose \<^verbatim>\<open>os.unlink\<close> raises \<^verbatim>\<open>PermissionError\<close>, and a program the compiler rejects,
  \<^verbatim>\<open>_compile_helper\<close> returns \<^verbatim>\<open>False\<close> and \<^verbatim>\<open>conftest.obj\<close> is still there. Second,
  \<^verbatim>\<open>open("conftest.c", "w")\<close> stands before the \<^verbatim>\<open>try\<close>: when it raises, the exception
  propagates and \<^verbatim>\<open>_remove_conftest\<close> is not called, so a \<^verbatim>\<open>conftest.o\<close> in the
  directory stays, although nothing refuses its removal.
\<close>

theorem compile_helper_leaves_files_counterexample:
  "compile_helper sticky_os nt_builder ''#error'' [''conftest.obj'' \<mapsto> ''old''] =
     (Inr False, [''conftest.obj'' \<mapsto> ''old''])
   \<and> compile_helper readonly_os nt_builder ''int x;'' [''conftest.o'' \<mapsto> ''old''] =
       (Inl (EnvironmentError ''PermissionError''), [''conftest.o'' \<mapsto> ''old''])
   \<and> unlink_error readonly_os ''conftest.o'' = None"
proof -
  have "compile_helper sticky_os nt_builder ''#error'' [''conftest.obj'' \<mapsto> ''old''] =
     (Inr False, [''conftest.obj'' \<mapsto> ''old''])"
    by (auto simp add: compile_helper_def open_w_def write_close_def remove_conftest_result
        sticky_os_def permissive_os_def nt_builder_def example_compiler_def)
  moreover have
    "compile_helper readonly_os nt_builder ''int x;'' [''conftest.o'' \<mapsto> ''old''] =
       (Inl (EnvironmentError ''PermissionError''), [''conftest.o'' \<mapsto> ''old''])"
    by (simp add: compile_helper_def open_w_def readonly_os_def permissive_os_def)
  moreover have "unlink_error readonly_os ''conftest.o'' = None"
    by (simp add: readonly_os_def permissive_os_def)
  ultimately show ?thesis by simp
qed

text \<open>
  Claim C9, amended. For every program text, compiler, directory and operating system:
  when \<^verbatim>\<open>conftest.c\<close> can be opened and written, \<^verbatim>\<open>_compile_helper\<close> returns \<^verbatim>\<open>False\<close>
  exactly when the compiler, run on \<^verbatim>\<open>conftest.c\<close> holding the text, raises
  \<^verbatim>\<open>CompileError\<close>, returns \<^verbatim>\<open>True\<close> exactly when the compiler returns, and raises
  exactly the other exceptions of the compiler; when the write raises, that exception
  propagates. On each of these paths \<^verbatim>\<open>os.unlink\<close> is tried on \<^verbatim>\<open>conftest.c\<close>,
  \<^verbatim>\<open>conftest.o\<close> and \<^verbatim>\<open>conftest.obj\<close>: afterwards each of them is absent unless the
  operating system refuses its removal, in which case it is as the compiler (or the
  failed write) left it, and every other file is as the compiler left it. When
  \<^verbatim>\<open>conftest.c\<close> cannot be opened, the exception of \<^verbatim>\<open>open\<close> propagates and the
  directory is as it was: nothing is removed.
\<close>

theorem compile_helper_result:
  "(open_error sys ''conftest.c'' = None \<and> write_error sys ''conftest.c'' content = None \<longrightarrow>
      (fst (compile_helper sys self content fs) = Inr False \<longleftrightarrow>
         fst (compiler self [''conftest.c''] [] (fs(''conftest.c'' \<mapsto> content))) =
           Some CompileError)
      \<and> (fst (compile_helper sys self content fs) = Inr True \<longleftrightarrow>
           fst (compiler self [''conftest.c''] [] (fs(''conftest.c'' \<mapsto> content))) = None)
      \<and> (fst (compile_helper sys self content fs) = Inl e \<longleftrightarrow>
           fst (compiler self [''conftest.c''] [] (fs(''conftest.c'' \<mapsto> content))) = Some e
           \<and> e \<noteq> CompileError)
      \<and> snd (compile_helper sys self content fs) =
          (\<lambda>f. if f \<in> {''conftest.c'', ''conftest.o'', ''conftest.obj''}
                  \<and> unlink_error sys f = None
               then None
               else snd (compiler self [''conftest.c''] [] (fs(''conftest.c'' \<mapsto> content))) f))
   \<and> (open_error sys ''conftest.c'' = None
        \<and> write_error sys ''conftest.c'' content = Some (e', left) \<longrightarrow>
        compile_helper sys self content fs =
          (Inl e',
           \<lambda>f. if f \<in> {''conftest.c'', ''conftest.o'', ''conftest.obj''}
                   \<and> unlink_error sys f = None
               then None else (fs(''conftest.c'' \<mapsto> left)) f))
   \<and> (open_error sys ''conftest.c'' = Some e' \<longrightarrow>
        compile_helper sys self content fs = (Inl e', fs))"
  (is "(?ow \<longrightarrow> ?runs) \<and> (?wf \<longrightarrow> ?wq) \<and> (?of \<longrightarrow> ?oq)")
proof -
  have runs: ?runs if ?ow
  proof -
    from that have o: "open_error sys ''conftest.c'' = None"
      and w: "write_error sys ''conftest.c'' content = None"
      by simp_all
    show ?thesis by (rule compile_helper_runs [OF o w])
  qed
  have wr: ?wq if ?wf
    using that by (intro compile_helper_write_fails) simp_all
  have op: ?oq if ?of
    using that by (rule compile_helper_open_fails)
  show ?thesis
    by (rule conjI [OF impI [OF runs] conjI [OF impI [OF wr] impI [OF op]]])
qed

theorem compile_helper_result_witness:
  "fst (compile_helper permissive_os nt_builder ''#error'' Map.empty) = Inr False
   \<and> fst (compile_helper permissive_os nt_builder ''int x;'' Map.empty) = Inr True
   \<and> snd (compile_helper permissive_os nt_builder ''int x;'' Map.empty) = Map.empty
   \<and> snd (compile_helper sticky_os nt_builder ''int x;'' [''conftest.obj'' \<mapsto> ''old'']) =
       [''conftest.obj'' \<mapsto> ''old'']
   \<and> compile_helper
        (permissive_os\<lparr>write_error :=
           \<lambda>filename content. Some (EnvironmentError ''OSError'', ''int'')\<rparr>)
        nt_builder ''int x;'' Map.empty =
       (Inl (EnvironmentError ''OSError''), Map.empty)
   \<and> compile_helper readonly_os nt_builder ''int x;'' Map.empty =
       (Inl (EnvironmentError ''PermissionError''), Map.empty)"
proof -
  have c1: "compiler nt_builder [''conftest.c''] [] (fs(''conftest.c'' \<mapsto> ''#error'')) =
      (Some CompileError, fs(''conftest.c'' \<mapsto> ''#error''))" for fs
    by (simp add: nt_builder_def example_compiler_def)
  have c2: "compiler nt_builder [''conftest.c''] [] (fs(''conftest.c'' \<mapsto> ''int x;'')) =
      (None, fs(''conftest.c'' \<mapsto> ''int x;'', ''conftest.o'' \<mapsto> ''object code''))" for fs
    by (simp add: nt_builder_def example_compiler_def)
  have p: "open_error permissive_os ''conftest.c'' = None"
    "write_error permissive_os ''conftest.c'' content = None"
    "unlink_error permissive_os f = None"
    "open_error sticky_os ''conftest.c'' = None"
    "write_error sticky_os ''conftest.c'' content = None"
    "unlink_error sticky_os f = (if f = ''conftest.obj'' then Some ''PermissionError'' else None)"
    "open_error readonly_os ''conftest.c'' = Some (EnvironmentError ''PermissionError'')"
    for content f
    by (simp_all add: permissive_os_def sticky_os_def readonly_os_def)
  have "fst (compile_helper permissive_os nt_builder ''#error'' Map.empty) = Inr False"
    using compile_helper_result [of permissive_os "''#error''" nt_builder Map.empty]
    by (simp add: p c1)
  moreover
  have "fst (compile_helper permissive_os nt_builder ''int x;'' Map.empty) = Inr True"
    using compile_helper_result [of permissive_os "''int x;''" nt_builder Map.empty]
    by (simp add: p c2)
  moreover
  have "snd (compile_helper permissive_os nt_builder ''int x;'' Map.empty) = Map.empty"
    using compile_helper_result [of permissive_os "''int x;''" nt_builder Map.empty]
    by (simp add: p c2 fun_eq_iff cong: if_cong)
  moreover
  have "snd (compile_helper sticky_os nt_builder ''int x;'' [''conftest.obj'' \<mapsto> ''old'']) =
       [''conftest.obj'' \<mapsto> ''old'']"
    using compile_helper_result
      [of sticky_os "''int x;''" nt_builder "[''conftest.obj'' \<mapsto> ''old'']"]
    by (simp add: p c2 fun_eq_iff cong: if_cong)
  moreover
  have "compile_helper
        (permissive_os\<lparr>write_error :=
           \<lambda>filename content. Some (EnvironmentError ''OSError'', ''int'')\<rparr>)
        nt_builder ''int x;'' Map.empty =
       (Inl (EnvironmentError ''OSError''), Map.empty)"
    using compile_helper_result
      [where sys = "permissive_os\<lparr>write_error :=
           \<lambda>filename content. Some (EnvironmentError ''OSError'', ''int'')\<rparr>"
        and content = "''int x;''" and self = nt_builder and fs = Map.empty
        and e' = "EnvironmentError ''OSError''" and left = "''int''"]
    by (simp add: permissive_os_def) auto
  moreover
  have "compile_helper readonly_os nt_builder ''int x;'' Map.empty =
       (Inl (EnvironmentError ''PermissionError''), Map.empty)"
    using compile_helper_result
      [where sys = readonly_os and content = "''int x;''" and self = nt_builder
        and fs = Map.empty and e' = "EnvironmentError ''PermissionError''"]
    by (simp add: p)
  ultimately show ?thesis by simp
qed

subsection \<open>\<^verbatim>\<open>build_extensions\<close> and compilation failures\<close>

lemma prepare_extensions_compiler:
  "compiler (fst (prepare_extensions self h ls)) = compiler self"
  by (simp add: prepare_extensions_builder)

lemma build_extensions_result:
  "build_extensions base self h ls fs =
     (fst (base (fst (prepare_extensions self h ls)) h (snd (prepare_extensions self h ls)) fs),
      fst (prepare_extensions self h ls),
      snd (prepare_extensions self h ls),
      snd (base (fst (prepare_extensions self h ls)) h (snd (prepare_extensions self h ls)) fs))"
  by (simp add: build_extensions_def split: prod.splits)

text \<open>
  The loop of distutils stops at an extension that is not optional and whose compilation
  raises \<^verbatim>\<open>CompileError\<close>, if it gets that far.
\<close>

lemma distutils_build_loop_fatal:
  assumes "a \<in> set as" and "\<not> optional (h a)"
    and "\<forall>fs'. fst (compiler self (sources (h a)) (ls (extension.define_macros (h a))) fs') =
           Some CompileError"
  shows "fst (distutils_build_loop self h ls as fs) \<noteq> None"
  using assms(1)
proof (induction as arbitrary: fs)
  case Nil
  then show ?case by simp
next
  case (Cons b bs)
  obtain r fs' where c:
    "compiler self (sources (h b)) (ls (extension.define_macros (h b))) fs = (r, fs')"
    by (cases "compiler self (sources (h b)) (ls (extension.define_macros (h b))) fs")
  show ?case
  proof (cases "a = b")
    case True
    from assms(3) have
      "fst (compiler self (sources (h a)) (ls (extension.define_macros (h a))) fs) =
        Some CompileError"
      by (rule spec)
    with c True have "r = Some CompileError" by simp
    with c True assms(2) show ?thesis by simp
  next
    case False
    with Cons.prems have "a \<in> set bs" by simp
    then have "fst (distutils_build_loop self h ls bs fs') \<noteq> None" by (rule Cons.IH)
    with c show ?thesis by (cases r) simp_all
  qed
qed

lemma distutils_build_loop_first:
  assumes "\<forall>b \<in> set done. \<forall>fs'.
      fst (compiler self (sources (h b)) (ls (extension.define_macros (h b))) fs') = None"
    and "\<not> optional (h a)"
    and "\<forall>fs'. fst (compiler self (sources (h a)) (ls (extension.define_macros (h a))) fs') =
           Some CompileError"
  shows "fst (distutils_build_loop self h ls (done @ a # rest) fs) = Some CompileError"
  using assms(1)
proof (induction "done" arbitrary: fs)
  case Nil
  obtain r fs' where c:
    "compiler self (sources (h a)) (ls (extension.define_macros (h a))) fs = (r, fs')"
    by (cases "compiler self (sources (h a)) (ls (extension.define_macros (h a))) fs")
  from assms(3) have
    "fst (compiler self (sources (h a)) (ls (extension.define_macros (h a))) fs) =
      Some CompileError"
    by (rule spec)
  with c have "r = Some CompileError" by simp
  with c assms(2) show ?case by simp
next
  case (Cons b bs)
  obtain r fs' where c:
    "compiler self (sources (h b)) (ls (extension.define_macros (h b))) fs = (r, fs')"
    by (cases "compiler self (sources (h b)) (ls (extension.define_macros (h b))) fs")
  from Cons.prems have
    "fst (compiler self (sources (h b)) (ls (extension.define_macros (h b))) fs) = None"
    by simp
  with c have r: "r = None" by simp
  from Cons.prems have "\<forall>b \<in> set bs. \<forall>fs'.
      fst (compiler self (sources (h b)) (ls (extension.define_macros (h b))) fs') = None"
    by simp
  then have "fst (distutils_build_loop self h ls (bs @ a # rest) fs') = Some CompileError"
    by (rule Cons.IH)
  with c r show ?case by simp
qed

text \<open>The loop goes through when every failure is a build error of an optional extension.\<close>

lemma distutils_build_loop_optional:
  assumes "\<forall>b \<in> set as. \<forall>fs'.
      (case fst (compiler self (sources (h b)) (ls (extension.define_macros (h b))) fs') of
         None \<Rightarrow> True
       | Some e \<Rightarrow> is_build_error e \<and> optional (h b))"
  shows "fst (distutils_build_loop self h ls as fs) = None"
  using assms
proof (induction as arbitrary: fs)
  case Nil
  show ?case by simp
next
  case (Cons b bs)
  obtain r fs' where c:
    "compiler self (sources (h b)) (ls (extension.define_macros (h b))) fs = (r, fs')"
    by (cases "compiler self (sources (h b)) (ls (extension.define_macros (h b))) fs")
  from Cons.prems have
    "case fst (compiler self (sources (h b)) (ls (extension.define_macros (h b))) fs) of
       None \<Rightarrow> True
     | Some e \<Rightarrow> is_build_error e \<and> optional (h b)"
    by simp
  with c have r: "case r of None \<Rightarrow> True | Some e \<Rightarrow> is_build_error e \<and> optional (h b)"
    by simp
  from Cons.prems have "\<forall>b \<in> set bs. \<forall>fs'.
      (case fst (compiler self (sources (h b)) (ls (extension.define_macros (h b))) fs') of
         None \<Rightarrow> True
       | Some e \<Rightarrow> is_build_error e \<and> optional (h b))"
    by simp
  then have "fst (distutils_build_loop self h ls bs fs') = None"
    by (rule Cons.IH)
  with c r show ?case by (cases r) simp_all
qed

lemma broken_selected:
  "extensions (fst (prepare_extensions nt_builder broken_heap ls)) = [0]"
  by (simp add: prepare_extensions_builder nt_builder_def broken_heap_def example_heap_def
      ConditionalExtension_def Extension_init_def no_kwargs_def Let_def)

lemma broken_heap_at:
  "sources (broken_heap 0) = [''broken.c'']" "\<not> optional (broken_heap 0)"
  "extension.define_macros (broken_heap 0) = 0"
  by (simp_all add: broken_heap_def ConditionalExtension_def Extension_init_def no_kwargs_def
      Let_def)

lemma optional_selected:
  "extensions (fst (prepare_extensions nt_builder optional_heap ls)) = [0]"
  by (simp add: prepare_extensions_builder nt_builder_def optional_heap_def example_heap_def
      ConditionalExtension_def Extension_init_def no_kwargs_def Let_def)

lemma optional_heap_at:
  "sources (optional_heap 0) = [''broken.c'']" "optional (optional_heap 0)"
  "extension.define_macros (optional_heap 0) = 0"
  by (simp_all add: optional_heap_def ConditionalExtension_def Extension_init_def no_kwargs_def
      Let_def)

lemma example_compiler_broken:
  "compiler nt_builder [''broken.c''] macros fs = (Some CompileError, fs)"
  by (simp add: nt_builder_def example_compiler_def)

text \<open>
  Claim C2, as stated, fails. The extension at address 0 is selected and is not optional,
  the compiler raises \<^verbatim>\<open>CompileError\<close> on its source, and \<^verbatim>\<open>build_extensions\<close> with the
  build step of distutils raises that \<^verbatim>\<open>CompileError\<close>: nothing catches it and nothing
  takes the extension out of \<^verbatim>\<open>self.extensions\<close>.
\<close>

theorem build_extensions_compile_error_counterexample:
  "fst (compiler nt_builder (sources (broken_heap 0)) [(''WIN32'', 1)] Map.empty) =
     Some CompileError
   \<and> fst (build_extensions distutils_build_extensions nt_builder broken_heap example_lists
        Map.empty) = Some CompileError
   \<and> extensions (fst (snd
        (build_extensions distutils_build_extensions nt_builder broken_heap example_lists
           Map.empty))) = [0]"
proof -
  have "fst (distutils_build_extensions
      (fst (prepare_extensions nt_builder broken_heap example_lists)) broken_heap
      (snd (prepare_extensions nt_builder broken_heap example_lists)) Map.empty) =
      Some CompileError"
    by (simp add: distutils_build_extensions_def broken_selected broken_heap_at
        prepare_extensions_compiler example_compiler_broken split: prod.splits)
  then show ?thesis
    by (simp add: build_extensions_result broken_selected broken_heap_at
        example_compiler_broken)
qed

text \<open>
  Claim C2, amended. \<^verbatim>\<open>build_extensions\<close> catches nothing: with any build step of the
  base class it returns or raises as that step does on the prepared builder, and the
  builder it leaves is the prepared one, so no extension is taken out of
  \<^verbatim>\<open>self.extensions\<close>, whatever the outcome. With the build step of distutils, a
  \<^verbatim>\<open>CompileError\<close> of a selected extension is fatal unless the extension is optional:
  if a selected extension is not optional and its compilation raises \<^verbatim>\<open>CompileError\<close>,
  the build step raises, and what it raises is that \<^verbatim>\<open>CompileError\<close> when the
  extensions selected before it compile; if every selected extension whose compilation
  fails is optional and fails with a build error (\<^verbatim>\<open>CompileError\<close> among them), the
  build step returns. The \<^verbatim>\<open>CompileError\<close> that the module itself catches is the one of
  the probe program: when \<^verbatim>\<open>conftest.c\<close> can be opened and written and the compiler
  raises \<^verbatim>\<open>CompileError\<close> on it, \<^verbatim>\<open>_compile_helper\<close> returns \<^verbatim>\<open>False\<close>, and so does
  \<^verbatim>\<open>_check_header\<close> for a header whose \<^verbatim>\<open>#include\<close> line does not compile.
\<close>

theorem build_extensions_propagates:
  "fst (build_extensions base self h ls fs) =
     fst (base (fst (prepare_extensions self h ls)) h (snd (prepare_extensions self h ls)) fs)
   \<and> fst (snd (build_extensions base self h ls fs)) = fst (prepare_extensions self h ls)
   \<and> (a \<in> set (extensions (fst (prepare_extensions self h ls))) \<and> \<not> optional (h a)
        \<and> (\<forall>fs'. fst (compiler self (sources (h a))
                    (snd (prepare_extensions self h ls) (extension.define_macros (h a))) fs') =
                  Some CompileError) \<longrightarrow>
        fst (build_extensions distutils_build_extensions self h ls fs) \<noteq> None
        \<and> a \<in> set (extensions
                    (fst (snd (build_extensions distutils_build_extensions self h ls fs)))))
   \<and> (extensions (fst (prepare_extensions self h ls)) = before @ a # rest
        \<and> (\<forall>b \<in> set before. \<forall>fs'.
              fst (compiler self (sources (h b))
                (snd (prepare_extensions self h ls) (extension.define_macros (h b))) fs') = None)
        \<and> \<not> optional (h a)
        \<and> (\<forall>fs'. fst (compiler self (sources (h a))
                    (snd (prepare_extensions self h ls) (extension.define_macros (h a))) fs') =
                  Some CompileError) \<longrightarrow>
        fst (build_extensions distutils_build_extensions self h ls fs) = Some CompileError)
   \<and> ((\<forall>b \<in> set (extensions (fst (prepare_extensions self h ls))). \<forall>fs'.
          (case fst (compiler self (sources (h b))
                  (snd (prepare_extensions self h ls) (extension.define_macros (h b))) fs') of
             None \<Rightarrow> True
           | Some e \<Rightarrow> is_build_error e \<and> optional (h b))) \<longrightarrow>
        fst (build_extensions distutils_build_extensions self h ls fs) = None
        \<and> extensions (fst (snd (build_extensions distutils_build_extensions self h ls fs))) =
            extensions (fst (prepare_extensions self h ls)))
   \<and> (open_error sys ''conftest.c'' = None \<and> write_error sys ''conftest.c'' content = None
        \<and> fst (compiler self [''conftest.c''] [] (fs(''conftest.c'' \<mapsto> content))) =
            Some CompileError \<longrightarrow>
        fst (compile_helper sys self content fs) = Inr False)
   \<and> (open_error sys ''conftest.c'' = None
        \<and> write_error sys ''conftest.c'' (''#include <'' @ header_name @ ''>'' @ [CHR 0x0A]) = None
        \<and> fst (compiler self [''conftest.c''] []
             (fs(''conftest.c'' \<mapsto> ''#include <'' @ header_name @ ''>'' @ [CHR 0x0A]))) =
            Some CompileError \<longrightarrow>
        fst (check_header sys self header_name fs) = Inr False)"
  (is "?res \<and> ?left \<and> (?f \<longrightarrow> ?fq) \<and> (?g \<longrightarrow> ?gq) \<and> (?s \<longrightarrow> ?sq) \<and> (?p \<longrightarrow> ?pq)
       \<and> (?c \<longrightarrow> ?cq)")
proof -
  let ?self = "fst (prepare_extensions self h ls)"
  let ?ls = "snd (prepare_extensions self h ls)"
  let ?built = "build_extensions distutils_build_extensions self h ls fs"
  have res: ?res
    by (simp add: build_extensions_result)
  have left: "fst (snd (build_extensions base' self h ls fs)) = ?self" for base'
    by (simp add: build_extensions_result)
  have built: "fst ?built = fst (distutils_build_loop ?self h ?ls (extensions ?self) fs)"
    by (simp add: build_extensions_result distutils_build_extensions_def)
  have fatal: ?fq if ?f
  proof -
    from that have "a \<in> set (extensions ?self)" and "\<not> optional (h a)"
      and "\<forall>fs'. fst (compiler ?self (sources (h a)) (?ls (extension.define_macros (h a))) fs') =
                  Some CompileError"
      by (simp_all add: prepare_extensions_compiler)
    then have "fst (distutils_build_loop ?self h ?ls (extensions ?self) fs) \<noteq> None"
      by (rule distutils_build_loop_fatal)
    with that show ?thesis by (simp add: built left)
  qed
  have first: ?gq if ?g
  proof -
    from that have sel: "extensions ?self = before @ a # rest" by simp
    from that have "\<forall>b \<in> set before. \<forall>fs'.
        fst (compiler ?self (sources (h b)) (?ls (extension.define_macros (h b))) fs') = None"
      and "\<not> optional (h a)"
      and "\<forall>fs'. fst (compiler ?self (sources (h a)) (?ls (extension.define_macros (h a))) fs') =
                  Some CompileError"
      by (simp_all add: prepare_extensions_compiler)
    then have "fst (distutils_build_loop ?self h ?ls (before @ a # rest) fs) = Some CompileError"
      by (rule distutils_build_loop_first)
    then show ?thesis unfolding built sel .
  qed
  have skipped: ?sq if ?s
  proof -
    from that have "\<forall>b \<in> set (extensions ?self). \<forall>fs'.
          (case fst (compiler ?self (sources (h b)) (?ls (extension.define_macros (h b))) fs') of
             None \<Rightarrow> True
           | Some e \<Rightarrow> is_build_error e \<and> optional (h b))"
      by (simp only: prepare_extensions_compiler)
    then have "fst (distutils_build_loop ?self h ?ls (extensions ?self) fs) = None"
      by (rule distutils_build_loop_optional)
    then show ?thesis by (simp add: built left)
  qed
  have probe: "fst (compile_helper sys self program fs) = Inr False"
    if "open_error sys ''conftest.c'' = None \<and> write_error sys ''conftest.c'' program = None
        \<and> fst (compiler self [''conftest.c''] [] (fs(''conftest.c'' \<mapsto> program))) =
            Some CompileError" for program
  proof -
    from that have o: "open_error sys ''conftest.c'' = None"
      and w: "write_error sys ''conftest.c'' program = None"
      and c: "fst (compiler self [''conftest.c''] [] (fs(''conftest.c'' \<mapsto> program))) =
            Some CompileError"
      by simp_all
    from c show ?thesis
      by (simp only: compile_helper_runs [OF o w, THEN conjunct1])
  qed
  have header: ?cq if ?c
    unfolding check_header_def using that by (rule probe)
  show ?thesis
    by (rule conjI [OF res conjI [OF left conjI [OF impI [OF fatal] conjI [OF impI [OF first]
          conjI [OF impI [OF skipped] conjI [OF impI [OF probe] impI [OF header]]]]]]])
qed

theorem build_extensions_propagates_witness:
  "fst (build_extensions distutils_build_extensions nt_builder broken_heap example_lists
      Map.empty) = Some CompileError
   \<and> 0 \<in> set (extensions (fst (snd
        (build_extensions distutils_build_extensions nt_builder broken_heap example_lists
           Map.empty))))
   \<and> fst (build_extensions distutils_build_extensions nt_builder optional_heap example_lists
        Map.empty) = None
   \<and> extensions (fst (snd
        (build_extensions distutils_build_extensions nt_builder optional_heap example_lists
           Map.empty))) = [0]
   \<and> fst (compile_helper permissive_os nt_builder ''#error'' Map.empty) = Inr False
   \<and> fst (check_header permissive_os
        (nt_builder\<lparr>compiler := \<lambda>srcs macros fs. (Some CompileError, fs)\<rparr>)
        ''rpc/rpc.h'' Map.empty) = Inr False"
proof -
  have p: "open_error permissive_os ''conftest.c'' = None"
    "write_error permissive_os ''conftest.c'' content = None" for content
    by (simp_all add: permissive_os_def)
  have fatal:
    "fst (build_extensions distutils_build_extensions nt_builder broken_heap example_lists
      Map.empty) = Some CompileError"
    using build_extensions_propagates
      [where base = distutils_build_extensions and self = nt_builder and h = broken_heap
        and ls = example_lists and fs = Map.empty and a = 0 and before = "[]" and rest = "[]"
        and sys = permissive_os and content = "[]" and header_name = "[]",
        THEN conjunct2, THEN conjunct2, THEN conjunct2, THEN conjunct1]
    by (simp add: broken_selected broken_heap_at example_compiler_broken)
  have stays:
    "0 \<in> set (extensions (fst (snd
        (build_extensions distutils_build_extensions nt_builder broken_heap example_lists
           Map.empty))))"
    using build_extensions_propagates
      [where base = distutils_build_extensions and self = nt_builder and h = broken_heap
        and ls = example_lists and fs = Map.empty and a = 0 and before = "[]" and rest = "[]"
        and sys = permissive_os and content = "[]" and header_name = "[]",
        THEN conjunct2, THEN conjunct2, THEN conjunct1]
    by (simp add: broken_selected broken_heap_at example_compiler_broken)
  have skipped:
    "fst (build_extensions distutils_build_extensions nt_builder optional_heap example_lists
        Map.empty) = None
     \<and> extensions (fst (snd
        (build_extensions distutils_build_extensions nt_builder optional_heap example_lists
           Map.empty))) = [0]"
    using build_extensions_propagates
      [where base = distutils_build_extensions and self = nt_builder and h = optional_heap
        and ls = example_lists and fs = Map.empty and a = 0 and before = "[]" and rest = "[]"
        and sys = permissive_os and content = "[]" and header_name = "[]",
        THEN conjunct2, THEN conjunct2, THEN conjunct2, THEN conjunct2, THEN conjunct1]
    by (simp add: optional_selected optional_heap_at example_compiler_broken)
  have "fst (compiler nt_builder [''conftest.c''] [] (Map.empty(''conftest.c'' \<mapsto> ''#error''))) =
      Some CompileError"
    by (simp add: nt_builder_def example_compiler_def)
  then have probe: "fst (compile_helper permissive_os nt_builder ''#error'' Map.empty) = Inr False"
    using build_extensions_propagates
      [where base = distutils_build_extensions and self = nt_builder and h = example_heap
        and ls = example_lists and fs = Map.empty and sys = permissive_os
        and content = "''#error''" and header_name = "[]" and a = 0 and before = "[]"
        and rest = "[]",
        THEN conjunct2, THEN conjunct2, THEN conjunct2, THEN conjunct2, THEN conjunct2, THEN conjunct1]
    by (simp add: p)
  have header:
    "fst (check_header permissive_os
        (nt_builder\<lparr>compiler := \<lambda>srcs macros fs. (Some CompileError, fs)\<rparr>)
        ''rpc/rpc.h'' Map.empty) = Inr False"
    using build_extensions_propagates
      [where base = distutils_build_extensions
        and self = "nt_builder\<lparr>compiler := \<lambda>srcs macros fs. (Some CompileError, fs)\<rparr>"
        and h = example_heap and ls = example_lists and fs = Map.empty
        and sys = permissive_os and content = "[]" and header_name = "''rpc/rpc.h''"
        and a = 0 and before = "[]" and rest = "[]",
        THEN conjunct2, THEN conjunct2, THEN conjunct2, THEN conjunct2, THEN conjunct2, THEN conjunct2]
    by (simp add: p)
  from fatal stays skipped probe header show ?thesis by simp
qed

subsection \<open>\<^verbatim>\<open>ConditionalExtension\<close> and the declared extensions\<close>

text \<open>
  Claim C4. An extension object carries its source list and a condition. Whatever the
  arguments of the construction, the object has a condition: the one given by the
  \<^verbatim>\<open>condition\<close> keyword, and without that keyword the predicate that is true of every
  builder, in which case the extension is selected by \<^verbatim>\<open>prepare_extensions\<close> whenever it
  is in \<^verbatim>\<open>conditionalExtensions\<close>.
\<close>

theorem ConditionalExtension_condition:
  "condition (fst (ConditionalExtension nm srcs kw fresh ls)) =
     (case kw_condition kw of None \<Rightarrow> (\<lambda>builder. True) | Some c \<Rightarrow> c)
   \<and> sources (fst (ConditionalExtension nm srcs kw fresh ls)) = srcs
   \<and> name (fst (ConditionalExtension nm srcs kw fresh ls)) = nm
   \<and> (kw_condition kw = None \<longrightarrow>
        condition (fst (ConditionalExtension nm srcs kw fresh ls)) = (\<lambda>builder. True))
   \<and> (kw_condition kw = None \<and> h a = fst (ConditionalExtension nm srcs kw fresh ls)
        \<and> a \<in> set (conditionalExtensions self) \<longrightarrow>
        a \<in> set (extensions (fst (prepare_extensions self h ls'))))"
  by (simp add: ConditionalExtension_def Extension_init_def prepare_extensions_builder Let_def)

theorem ConditionalExtension_condition_witness:
  "condition (fst (ConditionalExtension ''good'' [''good.c''] no_kwargs 0 example_lists)) =
     (\<lambda>builder. True)
   \<and> 0 \<in> set (extensions (fst (prepare_extensions posix_builder example_heap example_lists)))"
proof -
  have kw: "kw_condition no_kwargs = None" by (simp add: no_kwargs_def)
  have at: "example_heap 0 =
      fst (ConditionalExtension ''good'' [''good.c''] no_kwargs 0 example_lists)"
    by (simp add: example_heap_def)
  have listed: "0 \<in> set (conditionalExtensions posix_builder)"
    by (simp add: posix_builder_def)
  from kw at listed show ?thesis
    using ConditionalExtension_condition
      [where nm = "''good''" and srcs = "[''good.c'']" and kw = no_kwargs and fresh = 0
        and ls = example_lists and h = example_heap and a = 0 and self = posix_builder
        and ls' = example_lists]
    by simp
qed

text \<open>
  Claim C3. The declared list has two extensions, \<^verbatim>\<open>twisted.test.raiser\<close> and
  \<^verbatim>\<open>twisted.internet.iocpreactor.iocpsupport\<close>. On every builder the condition of the
  first is true iff \<^verbatim>\<open>platform.python_implementation()\<close> is \<^verbatim>\<open>CPython\<close> (as it was when
  the module was loaded), and the condition of the second is true iff that holds and
  \<^verbatim>\<open>sys.platform\<close> is \<^verbatim>\<open>win32\<close>.
\<close>

theorem EXTENSIONS_conditions:
  "map name (EXTENSIONS platform) =
     [''twisted.test.raiser'', ''twisted.internet.iocpreactor.iocpsupport'']
   \<and> map (\<lambda>x. condition x b) (EXTENSIONS platform) =
       [python_implementation platform = ''CPython'',
        python_implementation platform = ''CPython'' \<and> sys_platform b = ''win32'']
   \<and> checkCPython platform = (python_implementation platform = ''CPython'')"
  by (simp add: EXTENSIONS_def EXTENSIONS_init_def ConditionalExtension_def Extension_init_def
      no_kwargs_def isCPython_def checkCPython_def Let_def split: prod.splits)

subsection \<open>The optional-dependency groups\<close>

lemma getitem_Some: "d k = Some v \<Longrightarrow> getitem d k = Inr v"
  by (simp add: getitem_def)

lemma bind_exn_Inr: "bind_exn (Inr x) f = f x"
  by (simp add: bind_exn_def)

lemma EXTRA_OPTIONS_items:
  "EXTRA_OPTIONS ''dev'' = Some dev"
  "EXTRA_OPTIONS ''tls'' =
     Some [''pyopenssl >= 16.0.0'', ''service_identity >= 18.1.0'', ''idna >= 2.4'']"
  "EXTRA_OPTIONS ''conch'' =
     Some [''pyasn1'', ''cryptography >= 2.6'', ''appdirs >= 1.4.0'', ''bcrypt >= 3.0.0'']"
  "EXTRA_OPTIONS ''serial'' =
     Some [''pyserial >= 3.0'',
           ''pywin32 != 226; platform_system == '' @ [CHR 0x22] @ ''Windows'' @ [CHR 0x22]]"
  "EXTRA_OPTIONS ''macos'' =
     Some [''pyobjc-core'', ''pyobjc-framework-CFNetwork'', ''pyobjc-framework-Cocoa'']"
  "EXTRA_OPTIONS ''windows'' = Some [''pywin32 != 226'']"
  "EXTRA_OPTIONS ''http2'' = Some [''h2 >= 3.0, < 4.0'', ''priority >= 1.1.0, < 2.0'']"
  "EXTRA_OPTIONS ''contextvars'' =
     Some [''contextvars >= 2.4, < 3; python_version < '' @ [CHR 0x22] @ ''3.7'' @ [CHR 0x22]]"
  by (simp_all add: EXTRA_OPTIONS_def py_dict_def)

lemma fold_upd_map_of:
  "fold (\<lambda>(k, v) d. d(k \<mapsto> v)) items m = m ++ map_of (rev items)"
proof (induction items arbitrary: m)
  case Nil
  show ?case by simp
next
  case (Cons item items)
  obtain k v where item: "item = (k, v)" by (cases item)
  have "fold (\<lambda>(k, v) d. d(k \<mapsto> v)) (item # items) m =
      fold (\<lambda>(k, v) d. d(k \<mapsto> v)) items (m(k \<mapsto> v))"
    unfolding item by (simp only: fold_simps case_prod_conv)
  also have "\<dots> = m(k \<mapsto> v) ++ map_of (rev items)"
    by (rule Cons.IH)
  also have "m(k \<mapsto> v) = m ++ map_of [(k, v)]"
    by simp
  also have "(m ++ map_of [(k, v)]) ++ map_of (rev items) = m ++ map_of (rev (item # items))"
    unfolding item by (simp only: rev.simps map_of_append map_add_assoc)
  finally show ?case .
qed

lemma py_dict_Some: "py_dict items k = Some v \<Longrightarrow> (k, v) \<in> set items"
proof -
  assume "py_dict items k = Some v"
  then have "map_of (rev items) k = Some v"
    by (simp add: py_dict_def fold_upd_map_of)
  then have "(k, v) \<in> set (rev items)" by (rule map_of_SomeD)
  then show ?thesis by simp
qed

lemma py_dict_values:
  "list_all (\<lambda>item. P (snd item)) items \<Longrightarrow> py_dict items k = Some v \<Longrightarrow> P v"
proof -
  assume all: "list_all (\<lambda>item. P (snd item)) items" and "py_dict items k = Some v"
  then have "(k, v) \<in> set items" using py_dict_Some by fastforce
  with all have "P (snd (k, v))" unfolding list_all_iff by (rule bspec)
  then show ?thesis by simp
qed

lemma specs_constrained:
  "EXTRA_OPTIONS key = Some specs \<Longrightarrow>
   list_all (\<lambda>s. version_constrained s \<or> s \<in> set unconstrained) specs"
proof -
  have checked:
    "list_all
       (\<lambda>item. list_all (\<lambda>s. version_constrained s \<or> s \<in> set unconstrained) (snd item))
       [(''dev'', dev),
        (''tls'', [''pyopenssl >= 16.0.0'', ''service_identity >= 18.1.0'', ''idna >= 2.4'']),
        (''conch'',
           [''pyasn1'', ''cryptography >= 2.6'', ''appdirs >= 1.4.0'', ''bcrypt >= 3.0.0'']),
        (''serial'',
           [''pyserial >= 3.0'',
            ''pywin32 != 226; platform_system == '' @ [CHR 0x22] @ ''Windows'' @ [CHR 0x22]]),
        (''macos'', [''pyobjc-core'', ''pyobjc-framework-CFNetwork'', ''pyobjc-framework-Cocoa'']),
        (''windows'', [''pywin32 != 226'']),
        (''http2'', [''h2 >= 3.0, < 4.0'', ''priority >= 1.1.0, < 2.0'']),
        (''contextvars'',
           [''contextvars >= 2.4, < 3; python_version < '' @ [CHR 0x22] @ ''3.7'' @ [CHR 0x22]])]"
    by (simp add: dev_def version_constrained_def unconstrained_def)
  assume "EXTRA_OPTIONS key = Some specs"
  then show ?thesis
    unfolding EXTRA_OPTIONS_def
    by (rule py_dict_values
        [where P = "list_all (\<lambda>s. version_constrained s \<or> s \<in> set unconstrained)",
          OF checked])
qed

lemma EXTRAS_REQUIRE_dict:
  "EXTRA_OPTIONS ''dev'' = Some dev_options \<Longrightarrow>
   EXTRA_OPTIONS ''tls'' = Some tls \<Longrightarrow>
   EXTRA_OPTIONS ''conch'' = Some conch \<Longrightarrow>
   EXTRA_OPTIONS ''serial'' = Some serial \<Longrightarrow>
   EXTRA_OPTIONS ''http2'' = Some http2 \<Longrightarrow>
   EXTRA_OPTIONS ''contextvars'' = Some contextvars \<Longrightarrow>
   EXTRA_OPTIONS ''macos'' = Some macos \<Longrightarrow>
   EXTRA_OPTIONS ''windows'' = Some windows \<Longrightarrow>
   PLATFORM_INDEPENDENT = Inr (tls @ conch @ serial @ http2 @ contextvars)
   \<and> EXTRAS_REQUIRE =
     Inr (py_dict
            [(''dev'', dev_options),
             (''tls'', tls),
             (''conch'', conch),
             (''serial'', serial),
             (''http2'', http2),
             (''contextvars'', contextvars),
             (''all_non_platform'', tls @ conch @ serial @ http2 @ contextvars),
             (''macos_platform'', macos @ tls @ conch @ serial @ http2 @ contextvars),
             (''windows_platform'', windows @ tls @ conch @ serial @ http2 @ contextvars),
             (''osx_platform'', macos @ tls @ conch @ serial @ http2 @ contextvars)])"
  by (simp add: EXTRAS_REQUIRE_def PLATFORM_INDEPENDENT_def getitem_Some bind_exn_Inr
      Let_def py_dict_def)

lemma EXTRAS_REQUIRE_layout:
  "\<exists>d tls conch serial http2 contextvars macos windows.
     EXTRAS_REQUIRE = Inr d
     \<and> EXTRA_OPTIONS ''macos'' = Some macos
     \<and> EXTRA_OPTIONS ''windows'' = Some windows
     \<and> d ''tls'' = Some tls
     \<and> d ''conch'' = Some conch
     \<and> d ''serial'' = Some serial
     \<and> d ''http2'' = Some http2
     \<and> d ''contextvars'' = Some contextvars
     \<and> PLATFORM_INDEPENDENT = Inr (tls @ conch @ serial @ http2 @ contextvars)
     \<and> d ''all_non_platform'' = Some (tls @ conch @ serial @ http2 @ contextvars)
     \<and> d ''macos_platform'' = Some (macos @ tls @ conch @ serial @ http2 @ contextvars)
     \<and> d ''windows_platform'' = Some (windows @ tls @ conch @ serial @ http2 @ contextvars)
     \<and> d ''osx_platform'' = d ''macos_platform''
     \<and> EXTRA_OPTIONS ''conch'' = Some conch
     \<and> (\<forall>key specs. d key = Some specs \<longrightarrow>
          list_all (\<lambda>s. version_constrained s \<or> s \<in> set unconstrained) specs)"
proof -
  let ?ok = "list_all (\<lambda>s. version_constrained s \<or> s \<in> set unconstrained)"
  obtain dev_options tls conch serial http2 contextvars macos windows where
    eo: "EXTRA_OPTIONS ''dev'' = Some dev_options"
      "EXTRA_OPTIONS ''tls'' = Some tls"
      "EXTRA_OPTIONS ''conch'' = Some conch"
      "EXTRA_OPTIONS ''serial'' = Some serial"
      "EXTRA_OPTIONS ''http2'' = Some http2"
      "EXTRA_OPTIONS ''contextvars'' = Some contextvars"
      "EXTRA_OPTIONS ''macos'' = Some macos"
      "EXTRA_OPTIONS ''windows'' = Some windows"
    using EXTRA_OPTIONS_items by blast
  let ?pi = "tls @ conch @ serial @ http2 @ contextvars"
  let ?items =
    "[(''dev'', dev_options), (''tls'', tls), (''conch'', conch), (''serial'', serial),
      (''http2'', http2), (''contextvars'', contextvars), (''all_non_platform'', ?pi),
      (''macos_platform'', macos @ ?pi), (''windows_platform'', windows @ ?pi),
      (''osx_platform'', macos @ ?pi)]"
  from EXTRAS_REQUIRE_dict [OF eo]
  have p: "PLATFORM_INDEPENDENT = Inr ?pi" and d: "EXTRAS_REQUIRE = Inr (py_dict ?items)"
    by simp_all
  have ok: "?ok dev_options" "?ok tls" "?ok conch" "?ok serial" "?ok http2" "?ok contextvars"
    "?ok macos" "?ok windows"
    using eo by (simp_all only: specs_constrained)
  then have "list_all (\<lambda>item. ?ok (snd item)) ?items"
    by simp
  then have vals: "?ok specs" if "py_dict ?items key = Some specs" for key specs
    using that by (rule py_dict_values [where P = ?ok])
  have entries: "py_dict ?items ''tls'' = Some tls" "py_dict ?items ''conch'' = Some conch"
    "py_dict ?items ''serial'' = Some serial" "py_dict ?items ''http2'' = Some http2"
    "py_dict ?items ''contextvars'' = Some contextvars"
    "py_dict ?items ''all_non_platform'' = Some ?pi"
    "py_dict ?items ''macos_platform'' = Some (macos @ ?pi)"
    "py_dict ?items ''windows_platform'' = Some (windows @ ?pi)"
    "py_dict ?items ''osx_platform'' = py_dict ?items ''macos_platform''"
    by (simp_all add: py_dict_def)
  from d eo(3) eo(7) eo(8) p entries vals show ?thesis by blast
qed

text \<open>
  Claim C6, as stated, fails in its first part: the group \<^verbatim>\<open>conch\<close> holds the specifier
  \<^verbatim>\<open>pyasn1\<close>, which names a package and constrains no version.
\<close>

theorem EXTRAS_REQUIRE_unconstrained_counterexample:
  "bind_exn EXTRAS_REQUIRE (\<lambda>d. getitem d ''conch'') =
     Inr [''pyasn1'', ''cryptography >= 2.6'', ''appdirs >= 1.4.0'', ''bcrypt >= 3.0.0'']
   \<and> \<not> version_constrained ''pyasn1''"
proof -
  from EXTRAS_REQUIRE_layout obtain d conch where
    d: "EXTRAS_REQUIRE = Inr d" and c: "d ''conch'' = Some conch"
    and e: "EXTRA_OPTIONS ''conch'' = Some conch"
    by blast
  have "bind_exn EXTRAS_REQUIRE (\<lambda>d. getitem d ''conch'') = Inr conch"
    unfolding d by (simp add: bind_exn_Inr getitem_Some c)
  moreover from e have "conch =
      [''pyasn1'', ''cryptography >= 2.6'', ''appdirs >= 1.4.0'', ''bcrypt >= 3.0.0'']"
    by (simp add: EXTRA_OPTIONS_items)
  ultimately have "bind_exn EXTRAS_REQUIRE (\<lambda>d. getitem d ''conch'') =
      Inr [''pyasn1'', ''cryptography >= 2.6'', ''appdirs >= 1.4.0'', ''bcrypt >= 3.0.0'']"
    by simp
  moreover have "\<not> version_constrained ''pyasn1''"
    by (simp add: version_constrained_def)
  ultimately show ?thesis by simp
qed

text \<open>
  Claim C6, amended. The module's top level computes \<^verbatim>\<open>_EXTRAS_REQUIRE\<close> without a
  \<^verbatim>\<open>KeyError\<close>. Every specifier of every group constrains the version or is one of five
  bare package names, \<^verbatim>\<open>pyasn1\<close>, \<^verbatim>\<open>python-subunit\<close>, \<^verbatim>\<open>pyobjc-core\<close>,
  \<^verbatim>\<open>pyobjc-framework-CFNetwork\<close> and \<^verbatim>\<open>pyobjc-framework-Cocoa\<close>, which do not. The
  combined groups are concatenations: \<^verbatim>\<open>all_non_platform\<close> is \<^verbatim>\<open>tls\<close>, \<^verbatim>\<open>conch\<close>,
  \<^verbatim>\<open>serial\<close>, \<^verbatim>\<open>http2\<close> and \<^verbatim>\<open>contextvars\<close> in this order (the list
  \<^verbatim>\<open>_PLATFORM_INDEPENDENT\<close>), \<^verbatim>\<open>macos_platform\<close> is the \<^verbatim>\<open>macos\<close> options followed by
  that list, \<^verbatim>\<open>windows_platform\<close> the \<^verbatim>\<open>windows\<close> options followed by it, and
  \<^verbatim>\<open>osx_platform\<close> is \<^verbatim>\<open>macos_platform\<close>.
\<close>

theorem EXTRAS_REQUIRE_groups:
  "\<exists>d tls conch serial http2 contextvars macos windows.
     EXTRAS_REQUIRE = Inr d
     \<and> EXTRA_OPTIONS ''macos'' = Some macos
     \<and> EXTRA_OPTIONS ''windows'' = Some windows
     \<and> d ''tls'' = Some tls
     \<and> d ''conch'' = Some conch
     \<and> d ''serial'' = Some serial
     \<and> d ''http2'' = Some http2
     \<and> d ''contextvars'' = Some contextvars
     \<and> PLATFORM_INDEPENDENT = Inr (tls @ conch @ serial @ http2 @ contextvars)
     \<and> d ''all_non_platform'' = Some (tls @ conch @ serial @ http2 @ contextvars)
     \<and> d ''macos_platform'' = Some (macos @ tls @ conch @ serial @ http2 @ contextvars)
     \<and> d ''windows_platform'' = Some (windows @ tls @ conch @ serial @ http2 @ contextvars)
     \<and> d ''osx_platform'' = d ''macos_platform''
     \<and> (\<forall>key specs. d key = Some specs \<longrightarrow>
          list_all (\<lambda>s. version_constrained s \<or> s \<in> set unconstrained) specs)
     \<and> list_all (\<lambda>s. \<not> version_constrained s) unconstrained"
proof -
  have "list_all (\<lambda>s. \<not> version_constrained s) unconstrained"
    by (simp add: unconstrained_def version_constrained_def)
  with EXTRAS_REQUIRE_layout show ?thesis by blast
qed

theorem EXTRAS_REQUIRE_groups_witness:
  "\<exists>d specs. EXTRAS_REQUIRE = Inr d
     \<and> d ''windows_platform'' = Some (''pywin32 != 226'' # specs)
     \<and> list_all (\<lambda>s. version_constrained s \<or> s \<in> set unconstrained)
          (''pywin32 != 226'' # specs)"
proof -
  from EXTRAS_REQUIRE_groups obtain d tls conch serial http2 contextvars windows where
    d: "EXTRAS_REQUIRE = Inr d"
    and w: "EXTRA_OPTIONS ''windows'' = Some windows"
    and wp: "d ''windows_platform'' = Some (windows @ tls @ conch @ serial @ http2 @ contextvars)"
    and ok: "\<forall>key specs. d key = Some specs \<longrightarrow>
      list_all (\<lambda>s. version_constrained s \<or> s \<in> set unconstrained) specs"
    by blast
  from w have windows: "windows = [''pywin32 != 226'']"
    by (simp add: EXTRA_OPTIONS_items)
  from wp have wp':
    "d ''windows_platform'' =
       Some (''pywin32 != 226'' # tls @ conch @ serial @ http2 @ contextvars)"
    unfolding windows by simp
  from ok wp' have
    "list_all (\<lambda>s. version_constrained s \<or> s \<in> set unconstrained)
       (''pywin32 != 226'' # tls @ conch @ serial @ http2 @ contextvars)"
    by blast
  with d wp' show ?thesis by blast
qed

subsection \<open>\<^verbatim>\<open>getSetupArgs\<close>\<close>

lemma STATIC_PACKAGE_METADATA_free:
  "STATIC_PACKAGE_METADATA ''packages'' = None"
  "STATIC_PACKAGE_METADATA ''long_description'' = None"
  "STATIC_PACKAGE_METADATA ''ext_modules'' = None"
  "STATIC_PACKAGE_METADATA ''cmdclass'' = None"
  "STATIC_PACKAGE_METADATA ''extras_require'' = None"
  by (simp_all add: STATIC_PACKAGE_METADATA_def py_dict_def)

lemma getSetupArgs_dict:
  "EXTRAS_REQUIRE = Inr extras_require \<Longrightarrow> fs readme = Some readmeRst \<Longrightarrow>
   getSetupArgs find_packages fs extensions_arg readme =
     Inr (py_dict
            [(''packages'', StrList (find_packages ''src'')),
             (''long_description'', Str (re_sub readmeRst)),
             (''ext_modules'', ExtList extensions_arg),
             (''cmdclass'',
                CmdClass (py_dict
                  [(''build_ext'', \<lparr>class_conditionalExtensions = extensions_arg\<rparr>)])),
             (''extras_require'', StrListDict extras_require)]
          ++ STATIC_PACKAGE_METADATA)"
proof -
  assume er: "EXTRAS_REQUIRE = Inr extras_require" and r: "fs readme = Some readmeRst"
  show ?thesis
    unfolding getSetupArgs_def er
    by (simp add: longDescriptionFromReadme_def bind_exn_Inr Let_def r)
qed

lemma getSetupArgs_raises:
  "fs readme = None \<Longrightarrow>
   getSetupArgs find_packages fs extensions_arg readme =
     Inl (EnvironmentError ''FileNotFoundError'')"
proof -
  assume r: "fs readme = None"
  obtain extras_require where er: "EXTRAS_REQUIRE = Inr extras_require"
    using EXTRAS_REQUIRE_layout by blast
  show ?thesis
    unfolding getSetupArgs_def er
    by (simp add: longDescriptionFromReadme_def bind_exn_def Let_def r)
qed

text \<open>
  Claim C5, as stated, fails for a readme path that names no file: \<^verbatim>\<open>io.open\<close> raises
  and \<^verbatim>\<open>getSetupArgs\<close> returns no dictionary.
\<close>

theorem getSetupArgs_missing_readme_counterexample:
  "getSetupArgs (\<lambda>dir. []) Map.empty [0, 1] ''README.rst'' =
     Inl (EnvironmentError ''FileNotFoundError'')"
  by (simp add: getSetupArgs_raises)

text \<open>
  Claim C5, amended. For every extensions list and every readme path that names a file,
  \<^verbatim>\<open>getSetupArgs\<close> returns a dictionary that has every item of
  \<^verbatim>\<open>STATIC_PACKAGE_METADATA\<close>, maps \<^verbatim>\<open>extras_require\<close> to \<^verbatim>\<open>_EXTRAS_REQUIRE\<close>,
  \<^verbatim>\<open>ext_modules\<close> to the given list and \<^verbatim>\<open>cmdclass\<close> to a dictionary whose
  \<^verbatim>\<open>build_ext\<close> is a class with the given list as its \<^verbatim>\<open>conditionalExtensions\<close>; it
  also maps \<^verbatim>\<open>packages\<close> to what \<^verbatim>\<open>find_packages("src")\<close> returns and
  \<^verbatim>\<open>long_description\<close> to the substituted text of the readme. For a path that names no
  file it raises \<^verbatim>\<open>FileNotFoundError\<close>.
\<close>

theorem getSetupArgs_contents:
  "(fs readme = Some readmeRst \<longrightarrow>
      (\<exists>d extras_require cmdclass build_ext.
         getSetupArgs find_packages fs extensions_arg readme = Inr d
         \<and> (\<forall>k v. STATIC_PACKAGE_METADATA k = Some v \<longrightarrow> d k = Some v)
         \<and> EXTRAS_REQUIRE = Inr extras_require
         \<and> d ''extras_require'' = Some (StrListDict extras_require)
         \<and> d ''ext_modules'' = Some (ExtList extensions_arg)
         \<and> d ''cmdclass'' = Some (CmdClass cmdclass)
         \<and> cmdclass ''build_ext'' = Some build_ext
         \<and> class_conditionalExtensions build_ext = extensions_arg
         \<and> d ''packages'' = Some (StrList (find_packages ''src''))
         \<and> d ''long_description'' = Some (Str (re_sub readmeRst))))
   \<and> (fs readme = None \<longrightarrow>
        getSetupArgs find_packages fs extensions_arg readme =
          Inl (EnvironmentError ''FileNotFoundError''))"
proof (intro conjI impI)
  assume r: "fs readme = Some readmeRst"
  obtain extras_require where er: "EXTRAS_REQUIRE = Inr extras_require"
    using EXTRAS_REQUIRE_layout by blast
  let ?build_ext = "\<lparr>class_conditionalExtensions = extensions_arg\<rparr>"
  let ?cmdclass = "py_dict [(''build_ext'', ?build_ext)]"
  let ?explicit =
    "py_dict
       [(''packages'', StrList (find_packages ''src'')),
        (''long_description'', Str (re_sub readmeRst)),
        (''ext_modules'', ExtList extensions_arg),
        (''cmdclass'', CmdClass ?cmdclass),
        (''extras_require'', StrListDict extras_require)]"
  let ?d = "?explicit ++ STATIC_PACKAGE_METADATA"
  have d: "getSetupArgs find_packages fs extensions_arg readme = Inr ?d"
    using er r by (rule getSetupArgs_dict)
  have static: "\<forall>k v. STATIC_PACKAGE_METADATA k = Some v \<longrightarrow> ?d k = Some v"
    by (simp add: map_add_Some_iff)
  have explicit: "?d ''extras_require'' = Some (StrListDict extras_require)"
    "?d ''ext_modules'' = Some (ExtList extensions_arg)"
    "?d ''cmdclass'' = Some (CmdClass ?cmdclass)"
    "?d ''packages'' = Some (StrList (find_packages ''src''))"
    "?d ''long_description'' = Some (Str (re_sub readmeRst))"
    by (simp_all add: map_add_def STATIC_PACKAGE_METADATA_free py_dict_def)
  have cls: "?cmdclass ''build_ext'' = Some ?build_ext"
    "class_conditionalExtensions ?build_ext = extensions_arg"
    by (simp_all add: py_dict_def)
  show "\<exists>d extras_require cmdclass build_ext.
         getSetupArgs find_packages fs extensions_arg readme = Inr d
         \<and> (\<forall>k v. STATIC_PACKAGE_METADATA k = Some v \<longrightarrow> d k = Some v)
         \<and> EXTRAS_REQUIRE = Inr extras_require
         \<and> d ''extras_require'' = Some (StrListDict extras_require)
         \<and> d ''ext_modules'' = Some (ExtList extensions_arg)
         \<and> d ''cmdclass'' = Some (CmdClass cmdclass)
         \<and> cmdclass ''build_ext'' = Some build_ext
         \<and> class_conditionalExtensions build_ext = extensions_arg
         \<and> d ''packages'' = Some (StrList (find_packages ''src''))
         \<and> d ''long_description'' = Some (Str (re_sub readmeRst))"
  proof (intro exI conjI)
    show "getSetupArgs find_packages fs extensions_arg readme = Inr ?d" by (rule d)
    show "\<forall>k v. STATIC_PACKAGE_METADATA k = Some v \<longrightarrow> ?d k = Some v" by (rule static)
    show "EXTRAS_REQUIRE = Inr extras_require" by (rule er)
    show "?d ''extras_require'' = Some (StrListDict extras_require)" by (rule explicit)
    show "?d ''ext_modules'' = Some (ExtList extensions_arg)" by (rule explicit)
    show "?d ''cmdclass'' = Some (CmdClass ?cmdclass)" by (rule explicit)
    show "?cmdclass ''build_ext'' = Some ?build_ext" by (rule cls)
    show "class_conditionalExtensions ?build_ext = extensions_arg" by (rule cls)
    show "?d ''packages'' = Some (StrList (find_packages ''src''))" by (rule explicit)
    show "?d ''long_description'' = Some (Str (re_sub readmeRst))" by (rule explicit)
  qed
next
  assume "fs readme = None"
  then show "getSetupArgs find_packages fs extensions_arg readme =
      Inl (EnvironmentError ''FileNotFoundError'')"
    by (rule getSetupArgs_raises)
qed

theorem getSetupArgs_contents_witness:
  "(\<exists>d. getSetupArgs (\<lambda>dir. [''twisted'']) [''README.rst'' \<mapsto> ''Twisted''] [0, 1]
          ''README.rst'' = Inr d
        \<and> d ''ext_modules'' = Some (ExtList [0, 1])
        \<and> d ''name'' = Some (Str ''Twisted''))
   \<and> getSetupArgs (\<lambda>dir. [''twisted'']) [''README.rst'' \<mapsto> ''Twisted''] [0, 1]
        ''NEWS.rst'' = Inl (EnvironmentError ''FileNotFoundError'')"
proof -
  have present: "[''README.rst'' \<mapsto> ''Twisted''] ''README.rst'' = Some ''Twisted''"
    by simp
  have absent: "[''README.rst'' \<mapsto> ''Twisted''] ''NEWS.rst'' = None"
    by simp
  have name: "STATIC_PACKAGE_METADATA ''name'' = Some (Str ''Twisted'')"
    by (simp add: STATIC_PACKAGE_METADATA_def py_dict_def)
  from present name
    getSetupArgs_contents [where fs = "[''README.rst'' \<mapsto> ''Twisted'']"
      and readme = "''README.rst''" and readmeRst = "''Twisted''"
      and find_packages = "\<lambda>dir. [''twisted'']" and extensions_arg = "[0, 1]"]
  have "\<exists>d. getSetupArgs (\<lambda>dir. [''twisted'']) [''README.rst'' \<mapsto> ''Twisted''] [0, 1]
          ''README.rst'' = Inr d
        \<and> d ''ext_modules'' = Some (ExtList [0, 1])
        \<and> d ''name'' = Some (Str ''Twisted'')"
    by blast
  moreover from absent
    getSetupArgs_contents [where fs = "[''README.rst'' \<mapsto> ''Twisted'']"
      and readme = "''NEWS.rst''" and find_packages = "\<lambda>dir. [''twisted'']"
      and extensions_arg = "[0, 1]"]
  have "getSetupArgs (\<lambda>dir. [''twisted'']) [''README.rst'' \<mapsto> ''Twisted''] [0, 1]
        ''NEWS.rst'' = Inl (EnvironmentError ''FileNotFoundError'')"
    by blast
  ultimately show ?thesis by (rule conjI)
qed

subsection \<open>\<^verbatim>\<open>_longDescriptionFromReadme\<close>\<close>

lemma not_space:
  "\<not> isspace (CHR ''<'')" "\<not> isspace (CHR ''>'')" "\<not> isspace (CHR 0x60)" "isspace (CHR '' '')"
  by (simp_all add: isspace_def)


lemma imatch_stop:
  "\<forall>q \<in> set p. lower c \<noteq> lower q \<Longrightarrow> imatch p (t @ c # r) = imatch p t"
proof (induction p t rule: imatch.induct)
  case (1 s)
  show ?case by simp
next
  case (2 p ps)
  then show ?case by simp
next
  case (3 p ps c' cs)
  then show ?case by simp
qed


lemma lookahead_http_stop: "lookahead_http (t @ CHR ''>'' # r) = lookahead_http t"
proof -
  have "\<forall>q \<in> set ''https://''. lower (CHR ''>'') \<noteq> lower q"
    by (simp add: lower_def)
  moreover have "\<forall>q \<in> set ''http://''. lower (CHR ''>'') \<noteq> lower q"
    by (simp add: lower_def)
  ultimately show ?thesis
    by (simp only: lookahead_http_def imatch_stop)
qed

lemma takeWhile_until:
  "\<forall>x \<in> set xs. P x \<Longrightarrow> \<not> P y \<Longrightarrow> takeWhile P (xs @ y # ys) = xs"
  by (induction xs) simp_all

lemma dropWhile_until:
  "\<forall>x \<in> set xs. P x \<Longrightarrow> \<not> P y \<Longrightarrow> dropWhile P (xs @ y # ys) = y # ys"
  by (induction xs) simp_all

text \<open>The rest of the pattern on the rest of a link.\<close>

lemma match_tail_link:
  assumes "target \<noteq> []" and "CHR ''>'' \<notin> set target" and "\<not> lookahead_http target"
  shows "match_tail (CHR '' '' # CHR ''<'' # target @ CHR ''>'' # CHR 0x60 # CHR ''_'' # post) =
    Some (target, post)"
proof -
  let ?t2 = "target @ CHR ''>'' # CHR 0x60 # CHR ''_'' # post"
  have tw: "takeWhile (\<lambda>c. c \<noteq> CHR ''>'') ?t2 = target"
    using assms(2) by (intro takeWhile_until) auto
  have dw: "dropWhile (\<lambda>c. c \<noteq> CHR ''>'') ?t2 = CHR ''>'' # CHR 0x60 # CHR ''_'' # post"
    using assms(2) by (intro dropWhile_until) auto
  have la: "\<not> lookahead_http ?t2"
    using assms(3) by (simp add: lookahead_http_stop)
  show ?thesis
    unfolding match_tail_def
    by (simp add: not_space tw dw la assms(1) del: append.simps)
qed

lemma match_tail_nonspace: "\<not> isspace c \<Longrightarrow> match_tail (c # s) = None"
  by (simp add: match_tail_def)

lemma first_nonspace:
  "CHR ''<'' \<notin> set xs \<Longrightarrow>
   \<exists>c t. dropWhile isspace (xs @ CHR ''>'' # rest) = c # t \<and> c \<noteq> CHR ''<''"
  by (induction xs) (auto simp add: not_space)

lemma match_tail_no_lt:
  "CHR ''<'' \<notin> set xs \<Longrightarrow> match_tail (xs @ CHR ''>'' # rest) = None"
proof -
  assume "CHR ''<'' \<notin> set xs"
  then obtain c t where "dropWhile isspace (xs @ CHR ''>'' # rest) = c # t" and "c \<noteq> CHR ''<''"
    using first_nonspace by blast
  then show ?thesis by (simp add: match_tail_def)
qed

lemma match_tail_after:
  assumes "CHR ''<'' \<notin> set target" and "1 \<le> j" and "j \<le> length target + 3"
  shows "match_tail
    (drop j (CHR '' '' # CHR ''<'' # target @ CHR ''>'' # CHR 0x60 # CHR ''_'' # post)) = None"
proof -
  consider "j = 1" | "2 \<le> j \<and> j - 2 \<le> length target" | "j = length target + 3"
    using assms(2,3) by linarith
  then show ?thesis
  proof cases
    case 1
    then show ?thesis by (simp add: match_tail_nonspace not_space)
  next
    case 2
    then obtain i where j: "j = Suc (Suc i)" and i: "i \<le> length target"
      by (cases j; cases "j - 1") auto
    have "CHR ''<'' \<notin> set (drop i target)"
      using assms(1) by (auto dest: in_set_dropD)
    then have "match_tail (drop i target @ CHR ''>'' # CHR 0x60 # CHR ''_'' # post) = None"
      by (rule match_tail_no_lt)
    then show ?thesis using i by (simp add: j)
  next
    case 3
    then have "j = Suc (Suc (Suc (length target)))" by simp
    then show ?thesis by (simp add: match_tail_nonspace not_space)
  qed
qed

lemma match_label_link:
  assumes "label \<noteq> []" and "target \<noteq> []" and "CHR ''>'' \<notin> set target"
    and "CHR ''<'' \<notin> set target" and "\<not> lookahead_http target"
  shows "length label \<le> k \<Longrightarrow> k \<le> length label + length target + 3 \<Longrightarrow>
    match_label k
      (label @ CHR '' '' # CHR ''<'' # target @ CHR ''>'' # CHR 0x60 # CHR ''_'' # post) =
    Some (label, target, post)"
proof (induction k)
  case 0
  with assms(1) show ?case by simp
next
  case (Suc k)
  let ?tail = "CHR '' '' # CHR ''<'' # target @ CHR ''>'' # CHR 0x60 # CHR ''_'' # post"
  show ?case
  proof (cases "Suc k = length label")
    case True
    have "match_tail (drop (Suc k) (label @ ?tail)) = Some (target, post)"
      unfolding True using assms(2,3,5) by (simp add: match_tail_link)
    moreover have "take (Suc k) (label @ ?tail) = label"
      unfolding True by simp
    ultimately show ?thesis by simp
  next
    case False
    with Suc.prems have k: "length label \<le> k" by simp
    have "drop (Suc k) (label @ ?tail) = drop (Suc k - length label) ?tail"
      using k by simp
    moreover have "match_tail (drop (Suc k - length label) ?tail) = None"
      using assms(4) k Suc.prems(2) by (intro match_tail_after) simp_all
    ultimately have "match_tail (drop (Suc k) (label @ ?tail)) = None" by simp
    moreover have "match_label k (label @ ?tail) = Some (label, target, post)"
      using k Suc.prems(2) by (intro Suc.IH) simp_all
    ultimately show ?thesis by simp
  qed
qed

lemma length_takeWhile_append_le:
  "length (takeWhile P (xs @ ys)) \<le> length xs + length (takeWhile P ys)"
  by (induction xs) simp_all

lemma takeWhile_neq_append:
  "y \<notin> set xs \<Longrightarrow>
   takeWhile (\<lambda>c. c \<noteq> y) (xs @ ys) = xs @ takeWhile (\<lambda>c. c \<noteq> y) ys"
  by (induction xs) auto

lemma match_at_link:
  assumes "label \<noteq> []" and "CHR 0x60 \<notin> set label" and "target \<noteq> []"
    and "CHR ''>'' \<notin> set target" and "CHR ''<'' \<notin> set target" and "\<not> lookahead_http target"
  shows "match_at
      (CHR 0x60 # label @ CHR '' '' # CHR ''<'' # target @ CHR ''>'' # CHR 0x60 # CHR ''_'' # post) =
    Some (label, target, post)"
proof -
  let ?after = "CHR ''>'' # CHR 0x60 # CHR ''_'' # post"
  let ?r = "label @ CHR '' '' # CHR ''<'' # target @ ?after"
  let ?run = "takeWhile (\<lambda>c. c \<noteq> CHR 0x60) ?r"
  have run: "?run = label @ CHR '' '' # CHR ''<'' # takeWhile (\<lambda>c. c \<noteq> CHR 0x60) (target @ ?after)"
    using assms(2) by (simp add: takeWhile_neq_append)
  have "length (takeWhile (\<lambda>c. c \<noteq> CHR 0x60) (target @ ?after)) \<le>
      length target + length (takeWhile (\<lambda>c. c \<noteq> CHR 0x60) ?after)"
    by (rule length_takeWhile_append_le)
  then have "length (takeWhile (\<lambda>c. c \<noteq> CHR 0x60) (target @ ?after)) \<le> length target + 1"
    by simp
  then have "length label \<le> length ?run" and "length ?run \<le> length label + length target + 3"
    unfolding run by simp_all
  then have "match_label (length ?run) ?r = Some (label, target, post)"
    using assms(1,3,4,5,6) by (intro match_label_link)
  then show ?thesis by simp
qed

lemma re_sub_no_backquote:
  "CHR 0x60 \<notin> set xs \<Longrightarrow> re_sub (xs @ ys) = xs @ re_sub ys"
  by (induction xs) auto

lemma re_sub_rewrites:
  assumes "CHR 0x60 \<notin> set pre"
    and "label \<noteq> []" and "CHR 0x60 \<notin> set label" and "target \<noteq> []"
    and "CHR ''>'' \<notin> set target" and "CHR ''<'' \<notin> set target" and "\<not> lookahead_http target"
  shows "re_sub (pre @ [CHR 0x60] @ label @ '' <'' @ target @ ''>'' @ [CHR 0x60] @ ''_'' @ post) =
    pre @ [CHR 0x60] @ label @ '' <https://github.com/twisted/twisted/blob/trunk/'' @ target @
      ''>'' @ [CHR 0x60] @ ''_'' @ re_sub post"
proof -
  let ?link = "CHR 0x60 # label @ CHR '' '' # CHR ''<'' # target @ CHR ''>'' # CHR 0x60 # CHR ''_'' # post"
  have "re_sub (pre @ ?link) = pre @ re_sub ?link"
    using assms(1) by (rule re_sub_no_backquote)
  moreover have "re_sub ?link = expand label target @ re_sub post"
    using match_at_link [OF assms(2-7), of post] by simp
  ultimately show ?thesis by (simp add: expand_def)
qed


























end
